theory Spec2Isabelle
  imports Main "HOL-Library.Word" "HOL-Library.Signed_Division" "HOL-Library.Char_ord"
    "HOL-Library.List_Lexorder"
begin

section \<open>Client core (client.go)\<close>

text \<open>
  Go's \<open>uint64\<close> is a 64-bit word: \<open>client.seq++\<close> wraps around.
  An \<open>error\<close> value is either the package-level sentinel \<open>ErrShutdown\<close>
  (compared by identity) or an error created elsewhere, of which only the message matters.
\<close>

type_synonym u64 = "64 word"

datatype error = ErrShutdown | Err string


text \<open>
  \<open>type Call struct\<close>. \<open>Args\<close> and \<open>Reply\<close> are \<open>interface{}\<close>: any payload type \<open>'v\<close>.
  \<open>Error = None\<close> is Go's \<open>nil\<close> error. \<open>Done\<close> is the completion channel; of the channel
  the model keeps the number of times this call has been sent on it.
\<close>

record 'v Call =
  Seq :: u64
  ServiceMethod :: string
  Args :: 'v
  Reply :: 'v
  Error :: "error option"
  Done :: nat

text \<open>
  \<open>call.done()\<close> is the channel send \<open>c.Done <- c\<close>. The channel is the caller's: \<open>Go\<close>
  accepts any channel with a buffer, which several calls may share and which its owner
  drains or not. So whether the channel has room when the send is reached is a matter of
  the surroundings and is given as \<open>room\<close>: with room the send goes through, without it the
  goroutine blocks in the send (\<open>None\<close>).
\<close>

definition call_done :: "bool \<Rightarrow> 'v Call \<Rightarrow> 'v Call option" where
  "call_done room call = (if room then Some (call\<lparr>Done := Done call + 1\<rparr>) else None)"

text \<open>
  \<open>codec.Codec\<close> is an interface; of the connection behind it the client code only
  observes whether \<open>Close\<close> was called and what it returned.
\<close>

record Codec =
  closed :: bool
  close_result :: "error option"

record Option =
  MagicNumber :: int
  CodecType :: string
  ConnectTimeout :: int
  HandleTimeout :: int

text \<open>
  \<open>type Client struct\<close>. The field \<open>c\<close> is written \<open>cc\<close>. \<open>pending\<close> maps a sequence
  number to the \<open>*Call\<close> stored there; each \<open>Call\<close> is allocated by \<open>Go\<close> for one \<open>send\<close>,
  so a write through the pointer is an update of the table's entry.

  \<open>Close\<close>, \<open>IsAvailable\<close>, \<open>registerCall\<close> and \<open>removeCall\<close> run under \<open>mu\<close> from their
  first to their last statement and cannot block there, so each is one atomic transition.
  \<open>terminateCalls\<close> is different: it takes \<open>sending\<close> and \<open>mu\<close> and then sends on the
  \<open>Done\<close> channel of one call after the other, and each send can block. The model keeps the
  state of the two mutexes in the field \<open>terminating\<close>: it is \<open>None\<close> when
  \<open>terminateCalls\<close> is not inside its loop, and otherwise holds the error and the keys of the
  calls the loop has still to send on, first the one whose send is next.
\<close>

record 'v Client =
  cc :: Codec
  opt :: Option
  seq :: u64
  pending :: "u64 \<rightharpoonup> 'v Call"
  closing :: bool
  shutdown :: bool
  terminating :: "(error option \<times> u64 list) option"

definition Close :: "'v Client \<Rightarrow> error option \<times> 'v Client" where
  "Close client =
     (if closing client then (Some ErrShutdown, client)
      else (close_result (cc client),
            client\<lparr>closing := True, cc := (cc client)\<lparr>closed := True\<rparr>\<rparr>))"

definition IsAvailable :: "'v Client \<Rightarrow> bool" where
  "IsAvailable client = (\<not> shutdown client \<and> \<not> closing client)"

text \<open>
  \<open>registerCall\<close> returns \<open>(seq, err)\<close>; the model also returns the call, whose \<open>Seq\<close>
  field the code assigns through the pointer.
\<close>

definition registerCall :: "'v Client \<Rightarrow> 'v Call \<Rightarrow> (error + u64 \<times> 'v Call) \<times> 'v Client" where
  "registerCall client call =
     (if closing client \<or> shutdown client then (Inl ErrShutdown, client)
      else (let call' = call\<lparr>Seq := seq client\<rparr>
            in (Inr (Seq call', call'),
                client\<lparr>pending := (pending client)(Seq call' \<mapsto> call'),
                       seq := seq client + 1\<rparr>)))"

definition removeCall :: "'v Client \<Rightarrow> u64 \<Rightarrow> 'v Call option \<times> 'v Client" where
  "removeCall client s =
     (pending client s, client\<lparr>pending := (pending client)(s := None)\<rparr>)"

text \<open>
  \<open>terminateCalls\<close>, in the pieces between which it can block. \<open>set_Error\<close> is the
  statement \<open>call.Error = err\<close> for the call filed under \<open>k\<close>.

  \<open>terminateCalls_begin\<close> runs from the entry of the function to the first send: it sets
  \<open>shutdown\<close> and, when the table is empty, the function returns; otherwise the loop takes the
  first call and stores the error in it. \<open>ks\<close> is the order in which \<open>range\<close> visits the
  keys of \<open>client.pending\<close>, which Go chooses.

  \<open>terminateCalls_send\<close> is the send \<open>call.done()\<close> the loop is at, and what follows it up to
  the next send: with room in the channel the call is signalled, and then either the loop
  stores the error in the next call, or it is over and the function returns, which releases
  the mutexes. Without room the result is \<open>None\<close>: the function stays parked in the send,
  holding both mutexes, with the error stored in this call and the later calls untouched.
\<close>

definition set_Error :: "'v Client \<Rightarrow> u64 \<Rightarrow> error option \<Rightarrow> 'v Client" where
  "set_Error client k err =
     client\<lparr>pending := (pending client)(k := map_option (\<lambda>call. call\<lparr>Error := err\<rparr>) (pending client k))\<rparr>"

definition terminateCalls_begin :: "'v Client \<Rightarrow> error option \<Rightarrow> u64 list \<Rightarrow> 'v Client" where
  "terminateCalls_begin client err ks =
     (let c1 = client\<lparr>shutdown := True\<rparr> in
      case ks of
        [] \<Rightarrow> c1
      | k # rest \<Rightarrow> (set_Error c1 k err)\<lparr>terminating := Some (err, ks)\<rparr>)"

definition terminateCalls_send :: "bool \<Rightarrow> 'v Client \<Rightarrow> 'v Client option" where
  "terminateCalls_send room client =
     (case terminating client of
        None \<Rightarrow> None
      | Some (err, []) \<Rightarrow> None
      | Some (err, k # rest) \<Rightarrow>
          (case pending client k of
             None \<Rightarrow> None
           | Some call \<Rightarrow>
               (case call_done room call of
                  None \<Rightarrow> None
                | Some call' \<Rightarrow>
                    (let c1 = client\<lparr>pending := (pending client)(k \<mapsto> call')\<rparr> in
                     case rest of
                       [] \<Rightarrow> Some (c1\<lparr>terminating := None\<rparr>)
                     | k' # rest' \<Rightarrow> Some ((set_Error c1 k' err)\<lparr>terminating := Some (err, rest)\<rparr>)))))"

definition newClientCodec :: "Codec \<Rightarrow> Option \<Rightarrow> 'v Client" where
  "newClientCodec c0 opt0 =
     \<lparr>cc = c0, opt = opt0, seq = 1, pending = Map.empty, closing = False, shutdown = False,
      terminating = None\<rparr>"

text \<open>
  Any use of a client is a sequence of steps on \<open>seq\<close>, \<open>pending\<close>, \<open>closing\<close> and
  \<open>shutdown\<close>: \<open>registerCall\<close> (from \<open>send\<close>), \<open>removeCall\<close> (from \<open>receive\<close>, from the
  write-error path of \<open>send\<close> and from the cancellation branch of \<open>Call\<close>), \<open>Close\<close>, the
  entry of \<open>terminateCalls\<close> (when \<open>receive\<close> ends) and each of its sends. \<open>run\<close> executes
  such a sequence and records what each step returned.

  A step that cannot be taken where the sequence has it leaves the client as it is and is
  recorded as \<open>NoStep\<close>: a method that needs \<open>mu\<close> while \<open>terminateCalls\<close> holds it, a send
  on a channel without room, a send when no \<open>terminateCalls\<close> is under way, and an entry of
  \<open>terminateCalls\<close> with an order that is not an enumeration of the pending keys. The model
  lets \<open>registerCall\<close> and \<open>removeCall\<close> of different goroutines alternate freely; the code,
  where \<open>send\<close> holds \<open>sending\<close> across both, allows fewer sequences, not more.
\<close>

datatype 'v op =
  OpRegister "'v Call" | OpRemove u64 | OpTerminate "error option" "u64 list" | OpDone bool | OpClose

datatype 'v obs =
  Registered u64 | Refused error | Removed "'v Call option" | Started | Signalled |
  Closed "error option" | NoStep

fun exec :: "'v Client \<Rightarrow> 'v op \<Rightarrow> 'v obs \<times> 'v Client" where
  "exec client (OpRegister call) =
     (if terminating client \<noteq> None then (NoStep, client)
      else (case registerCall client call of
              (Inl e, client') \<Rightarrow> (Refused e, client')
            | (Inr (s, call'), client') \<Rightarrow> (Registered s, client')))"
| "exec client (OpRemove s) =
     (if terminating client \<noteq> None then (NoStep, client)
      else (case removeCall client s of (call, client') \<Rightarrow> (Removed call, client')))"
| "exec client (OpTerminate err ks) =
     (if terminating client = None \<and> distinct ks \<and> set ks = dom (pending client)
      then (Started, terminateCalls_begin client err ks) else (NoStep, client))"
| "exec client (OpDone room) =
     (case terminateCalls_send room client of
        None \<Rightarrow> (NoStep, client)
      | Some client' \<Rightarrow> (Signalled, client'))"
| "exec client OpClose =
     (if terminating client \<noteq> None then (NoStep, client)
      else (case Close client of (e, client') \<Rightarrow> (Closed e, client')))"

fun run :: "'v Client \<Rightarrow> 'v op list \<Rightarrow> 'v obs list \<times> 'v Client" where
  "run client [] = ([], client)"
| "run client (x # xs) =
     (case exec client x of (ob, client') \<Rightarrow>
        (case run client' xs of (obs, client'') \<Rightarrow> (ob # obs, client'')))"

text \<open>The sequence numbers handed out by the successful registrations of a run, in order.\<close>

fun assigned :: "'v obs list \<Rightarrow> u64 list" where
  "assigned [] = []"
| "assigned (Registered s # obs) = s # assigned obs"
| "assigned (ob # obs) = assigned obs"

text \<open>The calls that \<open>removeCall\<close> handed out (its non-nil results) in a run, in order.\<close>

fun removed :: "'v obs list \<Rightarrow> 'v Call list" where
  "removed [] = []"
| "removed (Removed (Some call) # obs) = call # removed obs"
| "removed (ob # obs) = removed obs"

section \<open>Option merging (client.go, server.go)\<close>

text \<open>
  \<open>var DefaultOption\<close> (server.go): the magic number \<open>0x5add9a7\<close>, the gob codec tag and a
  connect timeout of ten seconds (a \<open>time.Duration\<close> counts nanoseconds).
\<close>

definition MagicNumber_const :: int where
  "MagicNumber_const = 0x5add9a7"

definition GobType :: string where
  "GobType = ''application/gob''"

definition DefaultOption :: Option where
  "DefaultOption =
     \<lparr>MagicNumber = MagicNumber_const, CodecType = GobType,
      ConnectTimeout = 10 * 1000000000, HandleTimeout = 0\<rparr>"

text \<open>
  \<open>parseOptions(opts ...*Option)\<close> of client.go. An argument is a pointer: \<open>None\<close> is \<open>nil\<close>.
  The equations follow the order of the tests in the code: first \<open>len(opts) == 0 || opts[0] == nil\<close>,
  then \<open>len(opts) != 1\<close>. The result is the supplied object itself, updated in place.
\<close>

fun parseOptions :: "Option option list \<Rightarrow> error + Option" where
  "parseOptions [] = Inr DefaultOption"
| "parseOptions (None # rest) = Inr DefaultOption"
| "parseOptions (Some opt0 # x # rest) = Inl (Err ''number of options is more than 1'')"
| "parseOptions [Some opt0] =
     Inr (if CodecType opt0 = [] then opt0\<lparr>CodecType := CodecType DefaultOption\<rparr> else opt0)"

text \<open>
  The repository holds a second, older client (the one whose \<open>Dial\<close> has no connect timeout,
  src/unnamed/part_003). Its \<open>parseOptions\<close> has one more statement,
  \<open>opt.MagicNumber = DefaultOption.MagicNumber\<close>, before the codec type is filled in.
\<close>

fun parseOptions_part_003 :: "Option option list \<Rightarrow> error + Option" where
  "parseOptions_part_003 [] = Inr DefaultOption"
| "parseOptions_part_003 (None # rest) = Inr DefaultOption"
| "parseOptions_part_003 (Some opt0 # x # rest) = Inl (Err ''number of options is more than 1'')"
| "parseOptions_part_003 [Some opt0] =
     (let opt1 = opt0\<lparr>MagicNumber := MagicNumber DefaultOption\<rparr>
      in Inr (if CodecType opt1 = [] then opt1\<lparr>CodecType := CodecType DefaultOption\<rparr> else opt1))"

section \<open>Service registry (service.go)\<close>

text \<open>
  What the registry reads of a \<open>reflect.Type\<close>: its name, its package path and its kind.
  A defined (or predeclared) type has a name; pointer, map and slice types are built from
  their element types and have neither a name nor a package path. Two \<open>reflect.Type\<close> values
  are the same type exactly when the terms are equal.
\<close>

datatype Kind = K_Bool | K_Int | K_String | K_Struct | K_Interface | K_Func | K_Ptr | K_Map | K_Slice

datatype rtype =
  Named string string Kind   \<comment> \<open>package path, name, kind of the underlying type\<close>
| PtrTo rtype
| MapOf rtype rtype
| SliceOf rtype

fun type_Name :: "rtype \<Rightarrow> string" where
  "type_Name (Named pkg n k) = n"
| "type_Name t = []"

fun type_PkgPath :: "rtype \<Rightarrow> string" where
  "type_PkgPath (Named pkg n k) = pkg"
| "type_PkgPath t = []"

fun type_Kind :: "rtype \<Rightarrow> Kind" where
  "type_Kind (Named pkg n k) = k"
| "type_Kind (PtrTo t) = K_Ptr"
| "type_Kind (MapOf k v) = K_Map"
| "type_Kind (SliceOf t) = K_Slice"

text \<open>The type the code compares \<open>mType.Out(0)\<close> with: the predeclared interface type \<open>error\<close>.\<close>

definition errorType :: rtype where
  "errorType = Named [] ''error'' K_Interface"

text \<open>
  \<open>ast.IsExported\<close> is Go's library: it decodes the first rune of the name and asks
  \<open>unicode.IsUpper\<close>. The repository's code only calls it, so the model takes it as the
  parameter \<open>IsExported\<close> of every function that calls it and says nothing about which names
  it accepts. The reflection library decides by the same rule which methods are exported.
\<close>

definition isExportedOrBuiltinType :: "(string \<Rightarrow> bool) \<Rightarrow> rtype \<Rightarrow> bool" where
  "isExportedOrBuiltinType IsExported t = (IsExported (type_Name t) \<or> type_PkgPath t = [])"

text \<open>
  A \<open>reflect.Method\<close>: its name and its function type, whose inputs start with the receiver.
  \<open>NumIn\<close>, \<open>NumOut\<close>, \<open>In\<close> and \<open>Out\<close> read the function type; the code calls \<open>In\<close> and
  \<open>Out\<close> only after it has checked the counts.
\<close>

record FuncType =
  ins :: "rtype list"
  outs :: "rtype list"

record Method =
  Name :: string
  Type :: FuncType

definition NumIn :: "FuncType \<Rightarrow> nat" where "NumIn f = length (ins f)"
definition NumOut :: "FuncType \<Rightarrow> nat" where "NumOut f = length (outs f)"
definition In :: "FuncType \<Rightarrow> nat \<Rightarrow> rtype" where "In f i = ins f ! i"
definition Out :: "FuncType \<Rightarrow> nat \<Rightarrow> rtype" where "Out f i = outs f ! i"

text \<open>\<open>type methodType struct\<close>; its field \<open>method\<close> is written \<open>rmethod\<close>.\<close>

record methodType =
  rmethod :: Method
  ArgType :: rtype
  ReplyType :: rtype
  numCalls :: u64

text \<open>
  \<open>type service struct\<close>. Of \<open>typ\<close> and \<open>rcvr\<close> the model keeps the method set of the
  type \<open>typ\<close>, exported methods and others, as \<open>typ_methods\<close>. The field \<open>method\<close>, the map
  from a method's name to its descriptor, is written \<open>method_map\<close>.
\<close>

record service =
  name :: string
  typ_methods :: "Method list"
  method_map :: "string \<rightharpoonup> methodType"

text \<open>
  \<open>s.typ.NumMethod()\<close> counts and \<open>s.typ.Method(i)\<close> returns the exported methods of the
  method set only, sorted by name: \<open>visible_methods\<close> is the list \<open>Method(0)\<close>, \<open>Method(1)\<close>,
  and so on, that the loop of \<open>registerMethods\<close> goes through.
\<close>

definition visible_methods :: "(string \<Rightarrow> bool) \<Rightarrow> Method list \<Rightarrow> Method list" where
  "visible_methods IsExported ms = sort_key Name (filter (\<lambda>m. IsExported (Name m)) ms)"

text \<open>One turn of the loop of \<open>registerMethods\<close>; each \<open>continue\<close> leaves the map as it is.\<close>

definition registerMethod ::
  "(string \<Rightarrow> bool) \<Rightarrow> (string \<rightharpoonup> methodType) \<Rightarrow> Method \<Rightarrow> (string \<rightharpoonup> methodType)" where
  "registerMethod IsExported tab m =
     (let mType = Type m in
      if NumIn mType \<noteq> 3 \<or> NumOut mType \<noteq> 1 then tab
      else if Out mType 0 \<noteq> errorType then tab
      else
        (let argType = In mType 1; replyType = In mType 2 in
         if \<not> isExportedOrBuiltinType IsExported argType \<or>
            \<not> isExportedOrBuiltinType IsExported replyType then tab
         else tab(Name m \<mapsto> \<lparr>rmethod = m, ArgType = argType, ReplyType = replyType, numCalls = 0\<rparr>)))"

definition registerMethods :: "(string \<Rightarrow> bool) \<Rightarrow> service \<Rightarrow> service" where
  "registerMethods IsExported s =
     s\<lparr>method_map :=
         foldl (registerMethod IsExported) Map.empty (visible_methods IsExported (typ_methods s))\<rparr>"

text \<open>
  \<open>newService\<close>: the receiver is given by the name of its type and by the method set of
  its type. \<open>log.Fatalf\<close> ends the process: the result is \<open>None\<close>.
\<close>

definition newService :: "(string \<Rightarrow> bool) \<Rightarrow> string \<Rightarrow> Method list \<Rightarrow> service option" where
  "newService IsExported rcvr_name rcvr_methods =
     (if \<not> IsExported rcvr_name then None
      else Some (registerMethods IsExported
                   \<lparr>name = rcvr_name, typ_methods = rcvr_methods, method_map = Map.empty\<rparr>))"

section \<open>Server core (server.go)\<close>

record Server =
  serviceMap :: "string \<rightharpoonup> service"

text \<open>
  \<open>Register\<close>: \<open>LoadOrStore\<close> keeps an entry that is already there. The outer \<open>None\<close> is the
  \<open>log.Fatalf\<close> of \<open>newService\<close>.
\<close>

definition Register ::
  "(string \<Rightarrow> bool) \<Rightarrow> Server \<Rightarrow> string \<Rightarrow> Method list \<Rightarrow> (error option \<times> Server) option" where
  "Register IsExported server rcvr_name rcvr_methods =
     (case newService IsExported rcvr_name rcvr_methods of
        None \<Rightarrow> None
      | Some svc \<Rightarrow>
          (if serviceMap server (name svc) \<noteq> None
           then Some (Some (Err (''rpc: service already defined: '' @ name svc)), server)
           else Some (None, server\<lparr>serviceMap := (serviceMap server)(name svc \<mapsto> svc)\<rparr>)))"

text \<open>\<open>strings.LastIndex(s, ".")\<close> for a one-character separator: \<open>-1\<close> when it does not occur.\<close>

fun LastIndex :: "string \<Rightarrow> char \<Rightarrow> int" where
  "LastIndex [] ch = -1"
| "LastIndex (x # xs) ch =
     (let r = LastIndex xs ch in
      if 0 \<le> r then r + 1 else if x = ch then 0 else -1)"

text \<open>
  \<open>findService\<close> has three named results \<open>(svc, mtype, err)\<close>; a bare \<open>return\<close> hands back
  what they hold, so \<open>svc\<close> is set when only the method is missing.
\<close>

definition findService ::
  "Server \<Rightarrow> string \<Rightarrow> service option \<times> methodType option \<times> error option" where
  "findService server serviceMethod =
     (let dot = LastIndex serviceMethod (CHR ''.'') in
      if dot < 0
      then (None, None, Some (Err (''rpc server: service/method request ill-formed: '' @ serviceMethod)))
      else
        (let serviceName = take (nat dot) serviceMethod;
             methodName = drop (nat (dot + 1)) serviceMethod
         in case serviceMap server serviceName of
              None \<Rightarrow> (None, None, Some (Err (''rpc server: can't find service '' @ serviceName)))
            | Some svc \<Rightarrow>
                (case method_map svc methodName of
                   None \<Rightarrow> (Some svc, None, Some (Err (''rpc server: can't find method '' @ methodName)))
                 | Some mtype \<Rightarrow> (Some svc, Some mtype, None))))"

subsection \<open>The handler of one request\<close>

text \<open>
  \<open>codec.Header\<close>; the fields are written with the prefix \<open>h_\<close>. A response frame is one
  call of \<open>c.Write(header, body)\<close>: the header as it is at that moment and a body, which is
  either the sentinel \<open>invalidRequest\<close> or a reply value.
\<close>

record Header =
  h_ServiceMethod :: string
  h_Seq :: u64
  h_Error :: string

datatype 'v body = invalidRequest | ReplyBody 'v

type_synonym 'v frame = "Header \<times> 'v body"

text \<open>\<open>sendResponse\<close> writes one frame under the \<open>sending\<close> mutex; a write error is only logged.\<close>

definition sendResponse :: "'v frame list \<Rightarrow> Header \<Rightarrow> 'v body \<Rightarrow> 'v frame list" where
  "sendResponse wire0 header0 body0 = wire0 @ [(header0, body0)]"

text \<open>
  \<open>handleRequest\<close> runs two goroutines that meet on the unbuffered channels \<open>called\<close> and
  \<open>sent\<close>. Each goroutine is at one of a few places of the code:
  the caller of \<open>handleRequest\<close> at \<open><-called\<close> (line 167), at the \<open>select\<close> (line 172), at
  \<open><-sent\<close> (lines 168 and 177) or past its \<open>return\<close>; the invocation goroutine inside
  \<open>req.svc.call\<close> (line 156), at \<open>called <- struct{}{}\<close> (line 157), at \<open>if err != nil\<close>
  (line 158), at \<open>sent <- struct{}{}\<close> (line 161) or at its end.
\<close>

datatype main_pc = M_recv_called | M_select | M_recv_sent | M_returned

datatype worker_pc = W_call | W_send_called | W_check_err | W_send_sent | W_exit

text \<open>
  \<open>req_h\<close> is the header \<open>req.h\<close> points to, which both goroutines write; \<open>wire\<close> lists the
  frames written to the connection so far.
\<close>

record 'v hstate =
  mainpc :: main_pc
  workpc :: worker_pc
  req_h :: Header
  wire :: "'v frame list"

text \<open>
  The steps a scheduler can choose from. \<open>TimerFires\<close> is the \<open>case <-time.After(timeout)\<close>
  of the \<open>select\<close>: the model does not measure time, the timer has expired before the
  invocation signalled \<open>called\<close> exactly when this step is taken.
\<close>

datatype event = MethodReturns | CalledMeet | ErrCheck | SentMeet | TimerFires

text \<open>
  The parameters of a run: the handle timeout, the result \<open>err\<close> of \<open>req.svc.call\<close>
  (\<open>None\<close> is \<open>nil\<close>, \<open>Some e\<close> an error with \<open>err.Error() = e\<close>) and the rendering of a
  duration by \<open>fmt.Sprintf("%s", timeout)\<close>, which is Go's library and not this repository's.
\<close>

definition timeout_message :: "(int \<Rightarrow> string) \<Rightarrow> int \<Rightarrow> string" where
  "timeout_message render timeout =
     ''rpc server: request handle timeout: except within '' @ render timeout"

fun hstep ::
  "(int \<Rightarrow> string) \<Rightarrow> int \<Rightarrow> string option \<Rightarrow> 'v hstate \<Rightarrow> event \<Rightarrow> 'v hstate option" where
  "hstep render timeout err s MethodReturns =
     (if workpc s = W_call then Some (s\<lparr>workpc := W_send_called\<rparr>) else None)"
| "hstep render timeout err s CalledMeet =
     (if workpc s = W_send_called \<and> (mainpc s = M_recv_called \<or> mainpc s = M_select)
      then Some (s\<lparr>workpc := W_check_err, mainpc := M_recv_sent\<rparr>) else None)"
| "hstep render timeout err s ErrCheck =
     (if workpc s = W_check_err
      then (case err of
              Some e \<Rightarrow>
                (let h1 = (req_h s)\<lparr>h_Error := e\<rparr>
                 in Some (s\<lparr>req_h := h1, wire := sendResponse (wire s) h1 invalidRequest,
                           workpc := W_send_sent\<rparr>))
            | None \<Rightarrow> Some (s\<lparr>workpc := W_exit\<rparr>))
      else None)"
| "hstep render timeout err s SentMeet =
     (if workpc s = W_send_sent \<and> mainpc s = M_recv_sent
      then Some (s\<lparr>workpc := W_exit, mainpc := M_returned\<rparr>) else None)"
| "hstep render timeout err s TimerFires =
     (if mainpc s = M_select
      then (let h1 = (req_h s)\<lparr>h_Error := timeout_message render timeout\<rparr>
            in Some (s\<lparr>req_h := h1, wire := sendResponse (wire s) h1 invalidRequest,
                      mainpc := M_returned\<rparr>))
      else None)"

text \<open>
  \<open>handleRequest\<close> starts the invocation goroutine and goes to \<open><-called\<close> when
  \<open>timeout == 0\<close>, to the \<open>select\<close> otherwise.
\<close>

definition handleRequest_init :: "Header \<Rightarrow> int \<Rightarrow> 'v hstate" where
  "handleRequest_init h0 timeout =
     \<lparr>mainpc = (if timeout = 0 then M_recv_called else M_select), workpc = W_call,
      req_h = h0, wire = []\<rparr>"

text \<open>A schedule is a list of steps; it is a run when each step is possible where it is taken.\<close>

fun hrun ::
  "(int \<Rightarrow> string) \<Rightarrow> int \<Rightarrow> string option \<Rightarrow> 'v hstate \<Rightarrow> event list \<Rightarrow> 'v hstate option" where
  "hrun render timeout err s [] = Some s"
| "hrun render timeout err s (e # es) =
     (case hstep render timeout err s e of
        None \<Rightarrow> None
      | Some s1 \<Rightarrow> hrun render timeout err s1 es)"

definition handleRequest ::
  "(int \<Rightarrow> string) \<Rightarrow> Header \<Rightarrow> int \<Rightarrow> string option \<Rightarrow> event list \<Rightarrow> 'v hstate option" where
  "handleRequest render h0 timeout err es =
     hrun render timeout err (handleRequest_init h0 timeout) es"

section \<open>Static discovery (xclient, src/unnamed/part_006)\<close>

text \<open>
  A slice is a window on an array that other slices may share, so arrays live in a heap:
  the array at address \<open>a\<close> is \<open>h ! a\<close>, and \<open>make\<close> allocates at the next free address.
\<close>

type_synonym heap = "string list list"

record slice =
  s_arr :: nat
  s_off :: nat
  s_len :: nat
  s_cap :: nat

text \<open>
  A slice of a running program lies inside its array, and its capacity fits Go's \<open>int\<close>.
\<close>

definition slice_ok :: "heap \<Rightarrow> slice \<Rightarrow> bool" where
  "slice_ok h s =
     (s_arr s < length h \<and> s_len s \<le> s_cap s \<and> s_off s + s_cap s \<le> length (h ! s_arr s) \<and>
      s_cap s < 2 ^ 63)"

definition contents :: "heap \<Rightarrow> slice \<Rightarrow> string list" where
  "contents h s = take (s_len s) (drop (s_off s) (h ! s_arr s))"

text \<open>\<open>s[i]\<close> panics (\<open>None\<close>) when \<open>i\<close> is not in \<open>[0, len(s))\<close>.\<close>

definition slice_index :: "heap \<Rightarrow> slice \<Rightarrow> int \<Rightarrow> string option" where
  "slice_index h s i =
     (if 0 \<le> i \<and> i < int (s_len s) then Some (h ! s_arr s ! (s_off s + nat i)) else None)"

text \<open>\<open>s[i] = v\<close>, for the caller that mutates a slice it was given.\<close>

definition slice_assign :: "heap \<Rightarrow> slice \<Rightarrow> int \<Rightarrow> string \<Rightarrow> heap option" where
  "slice_assign h s i v =
     (if 0 \<le> i \<and> i < int (s_len s)
      then Some (h[s_arr s := (h ! s_arr s)[s_off s + nat i := v]]) else None)"

text \<open>\<open>make([]string, n, n)\<close> and the built-in \<open>copy(dst, src)\<close>.\<close>

definition make_slice :: "heap \<Rightarrow> nat \<Rightarrow> slice \<times> heap" where
  "make_slice h n = (\<lparr>s_arr = length h, s_off = 0, s_len = n, s_cap = n\<rparr>, h @ [replicate n []])"

definition copy_slice :: "heap \<Rightarrow> slice \<Rightarrow> slice \<Rightarrow> heap" where
  "copy_slice h dst src =
     (let n = min (s_len dst) (s_len src);
          xs = take n (contents h src);
          a = h ! s_arr dst
      in h[s_arr dst := take (s_off dst) a @ xs @ drop (s_off dst + n) a])"

text \<open>
  \<open>*rand.Rand\<close>: a source of raw draws and the number of draws taken. \<open>Intn(n)\<close> returns a
  value of \<open>[0, n)\<close> and advances the source (it panics for \<open>n <= 0\<close>, which no call here does).
\<close>

record rand =
  draws :: "nat \<Rightarrow> nat"
  taken :: nat

definition Intn :: "rand \<Rightarrow> int \<Rightarrow> int \<times> rand" where
  "Intn g n = (int (draws g (taken g) mod nat n), g\<lparr>taken := Suc (taken g)\<rparr>)"

text \<open>
  Go's \<open>int\<close> has 64 bits: \<open>+\<close> wraps around, and \<open>%\<close> is the remainder of the division that
  truncates (\<open>smod\<close>).
\<close>

definition wrap_int :: "int \<Rightarrow> int" where
  "wrap_int x = (x + 2 ^ 63) mod 2 ^ 64 - 2 ^ 63"

definition int_add :: "int \<Rightarrow> int \<Rightarrow> int" where
  "int_add a b = wrap_int (a + b)"

definition int_rem :: "int \<Rightarrow> int \<Rightarrow> int" where
  "int_rem a b = a smod b"

text \<open>\<open>type SelectMode int\<close> with the constants of the \<open>iota\<close> block.\<close>

type_synonym SelectMode = int

definition RandomSelect :: SelectMode where "RandomSelect = 0"
definition RoundRobinSelect :: SelectMode where "RoundRobinSelect = 1"

text \<open>\<open>type MultiServersDiscovery struct\<close>; the field \<open>r\<close> is written \<open>rnd\<close>, \<open>mu\<close> is left out.\<close>

record MultiServersDiscovery =
  rnd :: rand
  servers :: slice
  index :: int

definition MaxInt32 :: int where "MaxInt32 = 2 ^ 31 - 1"

text \<open>\<open>NewMultiServerDiscovery\<close>: \<open>g\<close> is the freshly seeded generator.\<close>

definition NewMultiServerDiscovery :: "rand \<Rightarrow> slice \<Rightarrow> MultiServersDiscovery" where
  "NewMultiServerDiscovery g srv =
     (let d = \<lparr>rnd = g, servers = srv, index = 0\<rparr>;
          (i, g1) = Intn (rnd d) (MaxInt32 - 1)
      in d\<lparr>rnd := g1, index := i\<rparr>)"

definition Refresh :: "MultiServersDiscovery \<Rightarrow> error option \<times> MultiServersDiscovery" where
  "Refresh d = (None, d)"

definition Update :: "MultiServersDiscovery \<Rightarrow> slice \<Rightarrow> error option \<times> MultiServersDiscovery" where
  "Update d srv = (None, d\<lparr>servers := srv\<rparr>)"

text \<open>
  \<open>Get\<close> returns \<open>(string, error)\<close>, here \<open>Inr\<close> the server or \<open>Inl\<close> the error, and the
  discovery as it is afterwards; \<open>None\<close> is an index-out-of-range panic.
\<close>

definition Get ::
  "heap \<Rightarrow> MultiServersDiscovery \<Rightarrow> SelectMode \<Rightarrow> ((error + string) \<times> MultiServersDiscovery) option" where
  "Get h d mode =
     (let n = int (s_len (servers d)) in
      if n = 0 then Some (Inl (Err ''rpc discovery: no available servers''), d)
      else if mode = RandomSelect then
        (let (i, g1) = Intn (rnd d) n in
         case slice_index h (servers d) i of
           None \<Rightarrow> None
         | Some s \<Rightarrow> Some (Inr s, d\<lparr>rnd := g1\<rparr>))
      else if mode = RoundRobinSelect then
        (case slice_index h (servers d) (int_rem (index d) n) of
           None \<Rightarrow> None
         | Some s \<Rightarrow> Some (Inr s, d\<lparr>index := int_rem (int_add (index d) 1) n\<rparr>))
      else Some (Inl (Err ''rpc discovery: not supported select mode''), d))"

text \<open>\<open>GetAll\<close> returns the new slice and a \<open>nil\<close> error, with the heap that holds the copy.\<close>

definition GetAll ::
  "heap \<Rightarrow> MultiServersDiscovery \<Rightarrow> (slice \<times> error option) \<times> heap \<times> MultiServersDiscovery" where
  "GetAll h d =
     (let (srv, h1) = make_slice h (s_len (servers d));
          h2 = copy_slice h1 srv (servers d)
      in ((srv, None), h2, d))"

section \<open>Invariants and example values\<close>

text \<open>
  The entries of the pending table of a client that has handed out the sequence numbers
  below \<open>m\<close>: a call sits at its own sequence number, and that number is below \<open>m\<close>.
\<close>

definition pending_ok :: "'v Client \<Rightarrow> nat \<Rightarrow> bool" where
  "pending_ok client m =
     (\<forall>k call. pending client k = Some call \<longrightarrow> Seq call = k \<and> unat k < m)"

text \<open>
  The client in the middle of \<open>terminateCalls\<close>, when the loop visits the keys in the order
  \<open>ks\<close> and \<open>i\<close> of its sends have gone through: \<open>shutdown\<close> is set, the first \<open>i\<close> calls
  have the error and have been signalled, the call the loop is at has the error and has not
  been signalled, and the calls after it are as they were. With \<open>i = length ks\<close> the
  function has returned.
\<close>

definition terminateCalls_at :: "'v Client \<Rightarrow> error option \<Rightarrow> u64 list \<Rightarrow> nat \<Rightarrow> 'v Client" where
  "terminateCalls_at client err ks i =
     client\<lparr>shutdown := True,
            terminating := (if i < length ks then Some (err, drop i ks) else None),
            pending := (\<lambda>j. if j \<in> set (take i ks)
                            then map_option (\<lambda>call. call\<lparr>Error := err, Done := Done call + 1\<rparr>)
                                   (pending client j)
                            else if i < length ks \<and> j = ks ! i
                            then map_option (\<lambda>call. call\<lparr>Error := err\<rparr>) (pending client j)
                            else pending client j)\<rparr>"

text \<open>The frame the timeout branch of \<open>handleRequest\<close> writes for a request with header \<open>h0\<close>.\<close>

definition timeout_frame :: "(int \<Rightarrow> string) \<Rightarrow> Header \<Rightarrow> int \<Rightarrow> 'v frame" where
  "timeout_frame render h0 timeout =
     (h0\<lparr>h_Error := timeout_message render timeout\<rparr>, invalidRequest)"

text \<open>
  What holds of the two goroutines of \<open>handleRequest\<close> when the invoked method returns no
  error: the invocation goroutine never reaches \<open>sent <- struct{}{}\<close>, and the only frame
  that can be on the wire is the one of the timeout branch.
\<close>

definition success_inv :: "(int \<Rightarrow> string) \<Rightarrow> Header \<Rightarrow> int \<Rightarrow> 'v hstate \<Rightarrow> bool" where
  "success_inv render h0 timeout s =
     ((mainpc s \<noteq> M_returned \<longrightarrow> req_h s = h0) \<and> workpc s \<noteq> W_send_sent \<and>
      (wire s = [] \<or>
       wire s = [(h0\<lparr>h_Error := timeout_message render timeout\<rparr>, invalidRequest)] \<and>
       mainpc s = M_returned) \<and>
      (mainpc s = M_select \<longrightarrow> wire s = []) \<and>
      (timeout = 0 \<longrightarrow> mainpc s \<noteq> M_select \<and> mainpc s \<noteq> M_returned \<and> wire s = []))"

text \<open>
  The frame the invocation goroutine writes when the method has returned the error \<open>e\<close>.
\<close>

definition error_frame :: "Header \<Rightarrow> string \<Rightarrow> 'v frame" where
  "error_frame h0 e = (h0\<lparr>h_Error := e\<rparr>, invalidRequest)"

text \<open>
  What holds after the schedule \<open>evs\<close>, for any result \<open>err\<close> of the method. Once the timer
  has fired, the caller has returned, the invocation goroutine is stuck before the \<open>called\<close>
  rendezvous and the wire holds the timeout frame alone. As long as it has not fired: a caller
  waiting for \<open>called\<close> has written nothing and the invocation goroutine has not passed
  \<open>called <- struct{}{}\<close>; a caller waiting for \<open>sent\<close> has met the invocation goroutine on
  \<open>called\<close>, and that goroutine is at its test of \<open>err\<close> with nothing written, or at
  \<open>sent <- struct{}{}\<close> with its error frame written, or at its end with nothing written
  because \<open>err\<close> was \<open>nil\<close>; a caller that has returned has met it on both channels, the
  goroutine is at its end, and the wire holds the error frame alone.
\<close>

definition timer_inv ::
  "(int \<Rightarrow> string) \<Rightarrow> Header \<Rightarrow> int \<Rightarrow> string option \<Rightarrow> event list \<Rightarrow> 'v hstate \<Rightarrow> bool" where
  "timer_inv render h0 timeout err evs s =
     ((TimerFires \<in> set evs \<longrightarrow>
         timeout \<noteq> 0 \<and> mainpc s = M_returned \<and> (workpc s = W_call \<or> workpc s = W_send_called) \<and>
         wire s = [timeout_frame render h0 timeout]) \<and>
      (TimerFires \<notin> set evs \<longrightarrow>
         (mainpc s = M_select \<longrightarrow> timeout \<noteq> 0) \<and>
         (mainpc s = M_recv_called \<longrightarrow> timeout = 0) \<and>
         (mainpc s = M_recv_called \<or> mainpc s = M_select \<longrightarrow>
            wire s = [] \<and> req_h s = h0 \<and> (workpc s = W_call \<or> workpc s = W_send_called)) \<and>
         (mainpc s = M_recv_sent \<longrightarrow>
            CalledMeet \<in> set evs \<and>
            (workpc s = W_check_err \<and> wire s = [] \<and> req_h s = h0 \<or>
             workpc s = W_send_sent \<and> (\<exists>e. err = Some e \<and> wire s = [error_frame h0 e]) \<or>
             workpc s = W_exit \<and> err = None \<and> wire s = [])) \<and>
         (mainpc s = M_returned \<longrightarrow>
            CalledMeet \<in> set evs \<and> SentMeet \<in> set evs \<and> workpc s = W_exit \<and>
            (\<exists>e. err = Some e \<and> wire s = [error_frame h0 e]))))"

text \<open>
  What holds of the two goroutines whatever the method returns: a caller that waits for
  \<open>called\<close> has written nothing, and a caller that has returned has one frame on the wire,
  which the invocation goroutine can no longer add to.
\<close>

definition returned_inv :: "'v hstate \<Rightarrow> bool" where
  "returned_inv s =
     ((mainpc s = M_recv_called \<or> mainpc s = M_select \<longrightarrow>
         wire s = [] \<and> (workpc s = W_call \<or> workpc s = W_send_called)) \<and>
      (mainpc s = M_recv_sent \<longrightarrow>
         (workpc s = W_check_err \<and> wire s = []) \<or>
         (workpc s = W_send_sent \<and> length (wire s) = 1) \<or>
         (workpc s = W_exit \<and> wire s = [])) \<and>
      (mainpc s = M_returned \<longrightarrow>
         length (wire s) = 1 \<and> workpc s \<noteq> W_check_err \<and> workpc s \<noteq> W_send_sent))"

text \<open>Values for the examples: an open connection, a call of \<open>Foo.Sum\<close>, a request header.\<close>

definition example_codec :: Codec where
  "example_codec = \<lparr>closed = False, close_result = None\<rparr>"

definition example_call :: "unit Call" where
  "example_call =
     \<lparr>Seq = 0, ServiceMethod = ''Foo.Sum'', Args = (), Reply = (), Error = None, Done = 0\<rparr>"

definition example_client :: "unit Client" where
  "example_client = newClientCodec example_codec DefaultOption"

definition example_header :: Header where
  "example_header = \<lparr>h_ServiceMethod = ''Bar.Timeout'', h_Seq = 1, h_Error = []\<rparr>"

text \<open>
  The condition under which the loop of \<open>registerMethods\<close> stores a method, and the
  descriptor it stores.
\<close>

definition eligible :: "(string \<Rightarrow> bool) \<Rightarrow> Method \<Rightarrow> bool" where
  "eligible IsExported m =
     (length (ins (Type m)) = 3 \<and> length (outs (Type m)) = 1 \<and> outs (Type m) ! 0 = errorType \<and>
      isExportedOrBuiltinType IsExported (ins (Type m) ! 1) \<and>
      isExportedOrBuiltinType IsExported (ins (Type m) ! 2))"

definition descriptor :: "Method \<Rightarrow> methodType" where
  "descriptor m =
     \<lparr>rmethod = m, ArgType = ins (Type m) ! 1, ReplyType = ins (Type m) ! 2, numCalls = 0\<rparr>"

text \<open>
  A discovery of a running program: its server slice lies in the heap, and \<open>index\<close> is
  what \<open>NewMultiServerDiscovery\<close> and \<open>Get\<close> leave there, a number from 0 up to
  (not including) the largest \<open>int\<close>.
\<close>

definition discovery_ok :: "heap \<Rightarrow> MultiServersDiscovery \<Rightarrow> bool" where
  "discovery_ok h d = (slice_ok h (servers d) \<and> 0 \<le> index d \<and> index d < 2 ^ 63 - 1)"

text \<open>
  For the examples, whose names all begin with an ASCII character: there \<open>ast.IsExported\<close>
  holds exactly of the names that begin with one of \<open>A\<close> to \<open>Z\<close>.
\<close>

definition IsExported_ascii :: "string \<Rightarrow> bool" where
  "IsExported_ascii n =
     (case n of [] \<Rightarrow> False
      | ch # rest \<Rightarrow> (of_char (CHR ''A'') :: nat) \<le> of_char ch \<and> (of_char ch :: nat) \<le> of_char (CHR ''Z''))"

text \<open>
  The receivers \<open>Foo\<close> and \<open>Foo2\<close> of the repository's service test
  (src/unnamed/part_005), registered as \<open>&foo\<close> and \<open>&foo2\<close>: the method sets of \<open>*Foo\<close>
  (with the unexported \<open>sum\<close>) and of \<open>*Foo2\<close>.
\<close>

definition pkg :: string where "pkg = ''github.com/yqchilde/gee-rpc''"
definition t_int :: rtype where "t_int = Named [] ''int'' K_Int"
definition t_string :: rtype where "t_string = Named [] ''string'' K_String"
definition t_Args :: rtype where "t_Args = Named pkg ''Args'' K_Struct"
definition t_Foo :: rtype where "t_Foo = Named pkg ''Foo'' K_Int"
definition t_Foo2 :: rtype where "t_Foo2 = Named pkg ''Foo2'' K_Int"

definition Foo_Sum :: Method where
  "Foo_Sum = \<lparr>Name = ''Sum'',
     Type = \<lparr>ins = [PtrTo t_Foo, t_Args, PtrTo t_int], outs = [errorType]\<rparr>\<rparr>"
definition Foo_sum :: Method where
  "Foo_sum = \<lparr>Name = ''sum'',
     Type = \<lparr>ins = [PtrTo t_Foo, t_Args, PtrTo t_int], outs = [errorType]\<rparr>\<rparr>"
definition Foo_receiver :: service where
  "Foo_receiver = \<lparr>name = ''Foo'', typ_methods = [Foo_Sum, Foo_sum], method_map = Map.empty\<rparr>"

definition Foo2_Sum :: Method where
  "Foo2_Sum = \<lparr>Name = ''Sum'',
     Type = \<lparr>ins = [PtrTo t_Foo2, t_Args, PtrTo t_int, t_int], outs = [errorType]\<rparr>\<rparr>"
definition Foo2_SumArgPointer :: Method where
  "Foo2_SumArgPointer = \<lparr>Name = ''SumArgPointer'',
     Type = \<lparr>ins = [PtrTo t_Foo2, PtrTo t_Args, PtrTo t_int], outs = [errorType]\<rparr>\<rparr>"
definition Foo2_SumRetMap :: Method where
  "Foo2_SumRetMap = \<lparr>Name = ''SumRetMap'',
     Type = \<lparr>ins = [PtrTo t_Foo2, PtrTo t_Args, MapOf t_string (MapOf t_string t_int)],
             outs = [errorType]\<rparr>\<rparr>"
definition Foo2_SumRetSlice :: Method where
  "Foo2_SumRetSlice = \<lparr>Name = ''SumRetSlice'',
     Type = \<lparr>ins = [PtrTo t_Foo2, PtrTo t_Args, SliceOf (SliceOf t_int)], outs = [errorType]\<rparr>\<rparr>"
definition Foo2_methods :: "Method list" where
  "Foo2_methods = [Foo2_Sum, Foo2_SumArgPointer, Foo2_SumRetMap, Foo2_SumRetSlice]"
definition Foo2_service :: service where
  "Foo2_service = \<lparr>name = ''Foo2'', typ_methods = Foo2_methods, method_map = Map.empty\<rparr>"

text \<open>A service as \<open>findService\<close> finds it, with one method \<open>Sum\<close>.\<close>

definition Foo_service :: service where
  "Foo_service = \<lparr>name = ''Foo'', typ_methods = [],
     method_map = [''Sum'' \<mapsto> \<lparr>rmethod = \<lparr>Name = ''Sum'', Type = \<lparr>ins = [], outs = []\<rparr>\<rparr>,
        ArgType = Named [] ''int'' K_Int, ReplyType = PtrTo (Named [] ''int'' K_Int), numCalls = 0\<rparr>]\<rparr>"

text \<open>The option of the repository's test that tampers with the magic number.\<close>

definition tampered_option :: Option where
  "tampered_option =
     \<lparr>MagicNumber = 123456, CodecType = ''application/gob'', ConnectTimeout = 0, HandleTimeout = 0\<rparr>"

text \<open>A heap with one array of three servers, and a discovery whose first draw is 7.\<close>

definition example_heap :: heap where
  "example_heap = [[''s1'', ''s2'', ''s3'']]"

definition example_servers :: slice where
  "example_servers = \<lparr>s_arr = 0, s_off = 0, s_len = 3, s_cap = 3\<rparr>"

definition example_discovery :: MultiServersDiscovery where
  "example_discovery =
     NewMultiServerDiscovery \<lparr>draws = (\<lambda>k. 7), taken = 0\<rparr> example_servers"

section \<open>The client's sequence numbers and pending table\<close>

text \<open>A step of a run moves \<open>seq\<close> by one when it registers a call, and not at all otherwise.\<close>

lemma exec_seq:
  "exec client x = (ob, client') \<Longrightarrow>
     (case ob of Registered s \<Rightarrow> s = seq client \<and> seq client' = seq client + 1
               | _ \<Rightarrow> seq client' = seq client)"
  by (cases x)
     (auto simp: registerCall_def removeCall_def terminateCalls_begin_def terminateCalls_send_def
           set_Error_def call_done_def Close_def Let_def
           split: if_splits option.splits list.splits prod.splits)

lemma run_assigned:
  "run client xs = (obs, client') \<Longrightarrow>
     seq client' = seq client + of_nat (length (assigned obs)) \<and>
     assigned obs = map (\<lambda>k. seq client + of_nat k) [0..<length (assigned obs)]"
proof (induction xs arbitrary: client obs)
  case Nil
  then show ?case by simp
next
  case (Cons x xs)
  obtain ob c1 where e: "exec client x = (ob, c1)" by (cases "exec client x")
  obtain obs1 where r: "run c1 xs = (obs1, client')" and o: "obs = ob # obs1"
    using Cons.prems e by (auto split: prod.splits)
  note ih = Cons.IH [OF r]
  show ?case
  proof (cases ob)
    case (Registered s)
    with exec_seq [OF e] have s: "s = seq client" "seq c1 = seq client + 1" by auto
    have "map (\<lambda>k. seq client + 1 + of_nat k) [0..<length (assigned obs1)]
        = map (\<lambda>k. seq client + of_nat k) [1..<Suc (length (assigned obs1))]"
      by (simp add: map_Suc_upt [symmetric] del: upt_Suc add: ac_simps)
    then show ?thesis using ih s Registered o
      by (simp add: upt_conv_Cons del: upt_Suc add: ac_simps)
  next
    case (Refused e') with exec_seq [OF e] ih o show ?thesis by simp
  next
    case (Removed c') with exec_seq [OF e] ih o show ?thesis by simp
  next
    case Started with exec_seq [OF e] ih o show ?thesis by simp
  next
    case Signalled with exec_seq [OF e] ih o show ?thesis by simp
  next
    case NoStep with exec_seq [OF e] ih o show ?thesis by simp
  next
    case (Closed e') with exec_seq [OF e] ih o show ?thesis by simp
  qed
qed

lemma unat_succ_u64: "k < 2 ^ 64 - 1 \<Longrightarrow> unat (1 + of_nat k :: u64) = Suc k"
proof -
  assume "k < 2 ^ 64 - 1"
  then have "Suc k < 2 ^ LENGTH(64)" by simp
  then have "unat (of_nat (Suc k) :: u64) = Suc k" by (simp only: unat_of_nat mod_less)
  then show ?thesis by simp
qed

lemma assigned_from_one:
  assumes r: "run client xs = (obs, client')" and s: "seq client = 1"
    and n: "length (assigned obs) < 2 ^ 64"
  shows "map unat (assigned obs) = [1..<Suc (length (assigned obs))]"
proof -
  let ?n = "length (assigned obs)"
  have a: "assigned obs = map (\<lambda>k. 1 + of_nat k) [0..<?n]"
    using run_assigned [OF r] s by simp
  have "map unat (map (\<lambda>k. 1 + of_nat k :: u64) [0..<?n]) = map Suc [0..<?n]"
    using n by (auto simp: unat_succ_u64 simp del: upt_Suc)
  also have "\<dots> = [1..<Suc ?n]"
    by (simp add: map_Suc_upt del: upt_Suc)
  finally show ?thesis using a by simp
qed

lemma run_replicate_register:
  "\<not> closing client \<Longrightarrow> \<not> shutdown client \<Longrightarrow> terminating client = None \<Longrightarrow>
   length (assigned (fst (run client (replicate n (OpRegister call))))) = n"
proof (induction n arbitrary: client)
  case 0
  then show ?case by simp
next
  case (Suc n)
  let ?c1 = "snd (registerCall client call)"
  have "\<not> closing ?c1" "\<not> shutdown ?c1" "terminating ?c1 = None"
    using Suc.prems by (simp_all add: registerCall_def Let_def)
  from Suc.IH [OF this] show ?case
    using Suc.prems by (auto simp add: registerCall_def Let_def split: prod.splits)
qed

lemma exec_Registered:
  "exec client x = (Registered s, c1) \<Longrightarrow>
     \<exists>call. s = seq client \<and>
       c1 = client\<lparr>pending := (pending client)(seq client \<mapsto> call\<lparr>Seq := seq client\<rparr>),
                   seq := seq client + 1\<rparr>"
  by (cases x)
     (auto simp: registerCall_def terminateCalls_send_def Let_def
           split: if_splits option.splits prod.splits)

lemma exec_Removed:
  "exec client x = (Removed r, c1) \<Longrightarrow>
     \<exists>k. r = pending client k \<and> c1 = client\<lparr>pending := (pending client)(k := None)\<rparr>"
  by (cases x)
     (auto simp: registerCall_def removeCall_def terminateCalls_send_def Let_def
           split: if_splits option.splits prod.splits)

lemma set_Error_pending:
  "pending (set_Error client k err) j =
     (if j = k then map_option (\<lambda>call. call\<lparr>Error := err\<rparr>) (pending client k) else pending client j)"
  by (simp add: set_Error_def)

lemma terminateCalls_begin_pending:
  "pending (terminateCalls_begin client err ks) j =
     (if ks \<noteq> [] \<and> j = hd ks then map_option (\<lambda>call. call\<lparr>Error := err\<rparr>) (pending client j)
      else pending client j)"
  by (cases ks) (simp_all add: terminateCalls_begin_def set_Error_pending Let_def)

lemma set_Error_fields:
  "seq (set_Error client k err) = seq client"
  "shutdown (set_Error client k err) = shutdown client"
  "closing (set_Error client k err) = closing client"
  "terminating (set_Error client k err) = terminating client"
  by (simp_all add: set_Error_def)

lemma terminateCalls_send_Some:
  assumes "terminateCalls_send room client = Some c1"
  shows "\<exists>err k rest call.
       room \<and> terminating client = Some (err, k # rest) \<and> pending client k = Some call \<and>
       terminating c1 = (if rest = [] then None else Some (err, rest)) \<and>
       seq c1 = seq client \<and> shutdown c1 = shutdown client \<and> closing c1 = closing client \<and>
       (\<forall>j. pending c1 j =
          (if rest \<noteq> [] \<and> j = hd rest
           then map_option (\<lambda>cl. cl\<lparr>Error := err\<rparr>)
                  (if j = k then Some (call\<lparr>Done := Done call + 1\<rparr>) else pending client j)
           else if j = k then Some (call\<lparr>Done := Done call + 1\<rparr>) else pending client j))"
proof -
  from assms obtain err k rest call where t: "terminating client = Some (err, k # rest)"
    and p: "pending client k = Some call" and r: room
    by (auto simp: terminateCalls_send_def call_done_def
             split: option.splits list.splits if_splits prod.splits)
  show ?thesis
  proof (cases rest)
    case Nil
    with assms t p r
    have "c1 = client\<lparr>pending := (pending client)(k \<mapsto> call\<lparr>Done := Done call + 1\<rparr>),
                      terminating := None\<rparr>"
      by (simp add: terminateCalls_send_def call_done_def Let_def)
    with t p r Nil show ?thesis by simp
  next
    case (Cons k' rest')
    with assms t p r
    have "c1 = (set_Error (client\<lparr>pending := (pending client)(k \<mapsto> call\<lparr>Done := Done call + 1\<rparr>)\<rparr>)
                   k' err)\<lparr>terminating := Some (err, rest)\<rparr>"
      by (simp add: terminateCalls_send_def call_done_def Let_def)
    with t p r Cons show ?thesis
      by (simp add: set_Error_fields set_Error_pending)
  qed
qed

lemma exec_other:
  assumes "exec client x = (ob, c1)" and "\<forall>s. ob \<noteq> Registered s" and "\<forall>r. ob \<noteq> Removed r"
  shows "seq c1 = seq client \<and>
         (\<forall>k. (pending c1 k = None) = (pending client k = None)) \<and>
         (\<forall>k call'. pending c1 k = Some call' \<longrightarrow>
            (\<exists>call. pending client k = Some call \<and> Seq call' = Seq call))"
proof (cases x)
  case (OpRegister call)
  with assms show ?thesis
    by (auto simp: registerCall_def Let_def split: if_splits)
next
  case (OpRemove k)
  with assms show ?thesis by (auto simp: removeCall_def split: if_splits)
next
  case (OpTerminate err ks)
  with assms have "c1 = client \<or> c1 = terminateCalls_begin client err ks"
    by (auto split: if_splits)
  moreover have "seq (terminateCalls_begin client err ks) = seq client"
    by (cases ks) (simp_all add: terminateCalls_begin_def set_Error_def Let_def)
  ultimately show ?thesis
    by (auto simp: terminateCalls_begin_pending split: if_splits)
next
  case (OpDone room)
  show ?thesis
  proof (cases "terminateCalls_send room client")
    case None
    with assms OpDone show ?thesis by simp
  next
    case (Some c2)
    with assms OpDone have c: "c1 = c2" by simp
    from terminateCalls_send_Some [OF Some] obtain err k rest call where
      sq: "seq c2 = seq client" and pk: "pending client k = Some call" and
      P: "\<And>j. pending c2 j =
          (if rest \<noteq> [] \<and> j = hd rest
           then map_option (\<lambda>cl. cl\<lparr>Error := err\<rparr>)
                  (if j = k then Some (call\<lparr>Done := Done call + 1\<rparr>) else pending client j)
           else if j = k then Some (call\<lparr>Done := Done call + 1\<rparr>) else pending client j)"
      by blast
    have "seq c1 = seq client" using sq c by simp
    moreover have "\<forall>j. (pending c1 j = None) = (pending client j = None)"
      using pk by (simp add: c P)
    moreover have "\<forall>j call'. pending c1 j = Some call' \<longrightarrow>
            (\<exists>call. pending client j = Some call \<and> Seq call' = Seq call)"
      using pk by (auto simp add: c P split: if_splits)
    ultimately show ?thesis by blast
  qed
next
  case OpClose
  with assms show ?thesis by (auto simp: Close_def split: if_splits)
qed

lemma run_append:
  "run client (xs @ ys) =
     (fst (run client xs) @ fst (run (snd (run client xs)) ys), snd (run (snd (run client xs)) ys))"
  by (induction xs arbitrary: client) (auto split: prod.splits)

lemma terminateCalls_begin_at:
  assumes "terminating client = None"
  shows "terminateCalls_begin client err ks = terminateCalls_at client err ks 0"
proof (cases ks)
  case Nil
  then show ?thesis using assms by (simp add: terminateCalls_begin_def terminateCalls_at_def)
next
  case (Cons k rest)
  then show ?thesis
    by (auto simp add: terminateCalls_begin_def terminateCalls_at_def set_Error_def fun_eq_iff)
qed

lemma terminateCalls_send_at:
  assumes d: "distinct ks" and s: "set ks \<subseteq> dom (pending client)" and i: "i < length ks"
  shows "terminateCalls_send room (terminateCalls_at client err ks i) =
           (if room then Some (terminateCalls_at client err ks (Suc i)) else None)"
proof -
  let ?c = "terminateCalls_at client err ks i"
  have dr: "drop i ks = ks ! i # drop (Suc i) ks" using i by (simp add: Cons_nth_drop_Suc)
  have t: "terminating ?c = Some (err, ks ! i # drop (Suc i) ks)"
    using i dr by (simp add: terminateCalls_at_def)
  from s i obtain call where call: "pending client (ks ! i) = Some call"
    by (meson domD nth_mem subsetD)
  have nt: "ks ! i \<notin> set (take i ks)"
    using d i by (metis distinct_take id_take_nth_drop not_distinct_conv_prefix distinct_append
        disjoint_iff list.set_intros(1))
  have p: "pending ?c (ks ! i) = Some (call\<lparr>Error := err\<rparr>)"
    using i call nt by (simp add: terminateCalls_at_def)
  show ?thesis
  proof (cases room)
    case False
    then show ?thesis using t p by (simp add: terminateCalls_send_def call_done_def)
  next
    case True
    have tk: "set (take (Suc i) ks) = insert (ks ! i) (set (take i ks))"
      using i by (simp add: take_Suc_conv_app_nth)
    show ?thesis
    proof (cases "Suc i < length ks")
      case False
      then have e: "drop (Suc i) ks = []" by simp
      have sk: "set ks = insert (ks ! i) (set (take i ks))" using tk False by simp
      have "terminateCalls_send room ?c =
              Some (?c\<lparr>pending := (pending ?c)(ks ! i \<mapsto> call\<lparr>Error := err, Done := Done call + 1\<rparr>),
                       terminating := None\<rparr>)"
        using t p True e by (simp add: terminateCalls_send_def call_done_def Let_def)
      also have "?c\<lparr>pending := (pending ?c)(ks ! i \<mapsto> call\<lparr>Error := err, Done := Done call + 1\<rparr>),
                       terminating := None\<rparr> = terminateCalls_at client err ks (Suc i)"
        using False i call by (auto simp add: terminateCalls_at_def fun_eq_iff sk)
      finally show ?thesis using True by simp
    next
      case lt: True
      then have e: "drop (Suc i) ks = ks ! Suc i # drop (Suc (Suc i)) ks"
        by (simp add: Cons_nth_drop_Suc)
      have ne: "ks ! Suc i \<noteq> ks ! i" using d lt i by (simp add: nth_eq_iff_index_eq)
      have nt2: "ks ! Suc i \<notin> set (take i ks)"
        using d lt by (auto simp add: in_set_conv_nth nth_eq_iff_index_eq)
      have "terminateCalls_send room ?c =
              Some ((set_Error (?c\<lparr>pending := (pending ?c)(ks ! i \<mapsto> call\<lparr>Error := err, Done := Done call + 1\<rparr>)\<rparr>)
                      (ks ! Suc i) err)\<lparr>terminating := Some (err, drop (Suc i) ks)\<rparr>)"
        using t p True e by (simp add: terminateCalls_send_def call_done_def Let_def)
      also have "(set_Error (?c\<lparr>pending := (pending ?c)(ks ! i \<mapsto> call\<lparr>Error := err, Done := Done call + 1\<rparr>)\<rparr>)
                      (ks ! Suc i) err)\<lparr>terminating := Some (err, drop (Suc i) ks)\<rparr>
                  = terminateCalls_at client err ks (Suc i)"
        using lt i call tk ne nt2 nt
        by (auto simp add: terminateCalls_at_def set_Error_def fun_eq_iff)
      finally show ?thesis using True by simp
    qed
  qed
qed

lemma run_terminateCalls:
  assumes "terminating client = None" and "distinct ks" and "set ks = dom (pending client)"
    and "i \<le> length ks"
  shows "run client (OpTerminate err ks # replicate i (OpDone True)) =
           (Started # replicate i Signalled, terminateCalls_at client err ks i)"
  using assms(4)
proof (induction i)
  case 0
  then show ?case using assms by (simp add: terminateCalls_begin_at)
next
  case (Suc i)
  then have i: "i < length ks" by simp
  have r: "replicate (Suc i) (OpDone True :: 'a op) = replicate i (OpDone True) @ [OpDone True]"
    by (simp add: replicate_append_same)
  have "run client ((OpTerminate err ks # replicate i (OpDone True)) @ [OpDone True]) =
          ((Started # replicate i Signalled) @ [Signalled], terminateCalls_at client err ks (Suc i))"
    unfolding run_append using Suc.IH i assms(2,3)
    by (simp add: terminateCalls_send_at)
  then show ?case unfolding r by (simp add: replicate_append_same)
qed

lemma assigned_other: "\<forall>s. ob \<noteq> Registered s \<Longrightarrow> assigned (ob # obs) = assigned obs"
  by (cases ob) auto

lemma removed_other: "\<forall>call. ob \<noteq> Removed (Some call) \<Longrightarrow> removed (ob # obs) = removed obs"
proof (cases ob)
  case (Removed r)
  assume "\<forall>call. ob \<noteq> Removed (Some call)"
  with Removed show ?thesis by (cases r) auto
qed auto

lemma run_pending:
  assumes "run client xs = (obs, client')"
    and "seq client = of_nat m"
    and "m + length (assigned obs) \<le> 2 ^ 64"
    and "pending_ok client m"
  shows "distinct (map Seq (removed obs)) \<and>
         Seq ` set (removed obs) \<subseteq> dom (pending client) \<union> set (assigned obs) \<and>
         dom (pending client') = (dom (pending client) \<union> set (assigned obs)) - Seq ` set (removed obs) \<and>
         (\<forall>s \<in> set (assigned obs). m \<le> unat s) \<and>
         pending_ok client' (m + length (assigned obs))"
  using assms
proof (induction xs arbitrary: client obs m)
  case Nil
  then show ?case by auto
next
  case (Cons x xs)
  obtain ob c1 where e: "exec client x = (ob, c1)" by (cases "exec client x")
  obtain obs1 where r: "run c1 xs = (obs1, client')" and o: "obs = ob # obs1"
    using Cons.prems(1) e by (auto split: prod.splits)
  consider (reg) s where "ob = Registered s" | (rem) rc where "ob = Removed rc"
    | (oth) "\<forall>s. ob \<noteq> Registered s" "\<forall>rc. ob \<noteq> Removed rc"
    by (cases ob) auto
  then show ?case
  proof cases
    case reg
    from exec_Registered [OF e [unfolded reg]] obtain call where s: "s = seq client"
      and c1: "c1 = client\<lparr>pending := (pending client)(seq client \<mapsto> call\<lparr>Seq := seq client\<rparr>),
                          seq := seq client + 1\<rparr>"
      by blast
    have ao: "assigned obs = s # assigned obs1" and ro: "removed obs = removed obs1"
      using o reg by simp_all
    have len: "Suc m + length (assigned obs1) \<le> 2 ^ 64" using Cons.prems(3) ao by simp
    then have "m < 2 ^ LENGTH(64)" by simp
    then have um: "unat (of_nat m :: u64) = m" by (simp only: unat_of_nat mod_less)
    have s1: "seq c1 = of_nat (Suc m)" using c1 Cons.prems(2) by simp
    have p1: "pending_ok c1 (Suc m)"
      using Cons.prems(4) um Cons.prems(2) c1
      by (auto simp: pending_ok_def less_Suc_eq)
    have dc: "dom (pending c1) = insert s (dom (pending client))" using c1 s by auto
    from Cons.IH [OF r s1 len p1]
    have d: "distinct (map Seq (removed obs1))"
      and f: "Seq ` set (removed obs1) \<subseteq> dom (pending c1) \<union> set (assigned obs1)"
      and g: "dom (pending client') = (dom (pending c1) \<union> set (assigned obs1)) - Seq ` set (removed obs1)"
      and h: "\<forall>s \<in> set (assigned obs1). Suc m \<le> unat s"
      and k: "pending_ok client' (Suc m + length (assigned obs1))"
      by blast+
    have "unat s = m" using s Cons.prems(2) um by simp
    with d f g h k dc ao ro show ?thesis by auto
  next
    case rem
    from exec_Removed [OF e [unfolded rem]] obtain k where rc: "rc = pending client k"
      and c1: "c1 = client\<lparr>pending := (pending client)(k := None)\<rparr>"
      by blast
    have ao: "assigned obs = assigned obs1" using o rem by simp
    have s1: "seq c1 = of_nat m" using c1 Cons.prems(2) by simp
    have len: "m + length (assigned obs1) \<le> 2 ^ 64" using Cons.prems(3) ao by simp
    have p1: "pending_ok c1 m" using Cons.prems(4) c1 by (auto simp: pending_ok_def)
    have dc: "dom (pending c1) = dom (pending client) - {k}" using c1 by auto
    from Cons.IH [OF r s1 len p1]
    have d: "distinct (map Seq (removed obs1))"
      and f: "Seq ` set (removed obs1) \<subseteq> dom (pending c1) \<union> set (assigned obs1)"
      and g: "dom (pending client') = (dom (pending c1) \<union> set (assigned obs1)) - Seq ` set (removed obs1)"
      and h: "\<forall>s \<in> set (assigned obs1). m \<le> unat s"
      and pk: "pending_ok client' (m + length (assigned obs1))"
      by blast+
    show ?thesis
    proof (cases rc)
      case None
      then have ro: "removed obs = removed obs1" using o rem by simp
      have "k \<notin> dom (pending client)" using None rc by auto
      then have "dom (pending c1) = dom (pending client)" using dc by simp
      with d f g h pk ao ro show ?thesis by simp
    next
      case (Some call)
      then have ro: "removed obs = call # removed obs1" using o rem by simp
      from Some rc Cons.prems(4) have kk: "Seq call = k" "unat k < m" "k \<in> dom (pending client)"
        by (auto simp: pending_ok_def)
      have na: "k \<notin> set (assigned obs1)" using h kk by auto
      have nr: "k \<notin> Seq ` set (removed obs1)" using f dc na by auto
      have "dom (pending client') =
              (dom (pending client) \<union> set (assigned obs1)) - insert k (Seq ` set (removed obs1))"
        using g dc na by auto
      with d f h pk ao ro kk nr dc show ?thesis by auto
    qed
  next
    case oth
    from exec_other [OF e oth]
    have sq: "seq c1 = seq client"
      and pn: "\<forall>k. (pending c1 k = None) = (pending client k = None)"
      and ps: "\<forall>k call'. pending c1 k = Some call' \<longrightarrow>
            (\<exists>call. pending client k = Some call \<and> Seq call' = Seq call)"
      by blast+
    have ao: "assigned obs = assigned obs1" using o oth(1) by (simp add: assigned_other)
    have ro: "removed obs = removed obs1" using o oth(2) by (simp add: removed_other)
    have s1: "seq c1 = of_nat m" using sq Cons.prems(2) by simp
    have len: "m + length (assigned obs1) \<le> 2 ^ 64" using Cons.prems(3) ao by simp
    have p1: "pending_ok c1 m"
      unfolding pending_ok_def
    proof (intro allI impI)
      fix k call' assume a: "pending c1 k = Some call'"
      with ps obtain call where "pending client k = Some call" "Seq call' = Seq call" by blast
      with Cons.prems(4) show "Seq call' = k \<and> unat k < m" by (auto simp: pending_ok_def)
    qed
    have dc: "dom (pending c1) = dom (pending client)" using pn by (auto simp: dom_def)
    from Cons.IH [OF r s1 len p1] dc ao ro show ?thesis by simp
  qed
qed

lemma removeCall_pending:
  "fst (removeCall client k) = pending client k \<and>
   pending (snd (removeCall client k)) k = None \<and>
   (\<forall>j. j \<noteq> k \<longrightarrow> pending (snd (removeCall client k)) j = pending client j) \<and>
   fst (removeCall (snd (removeCall client k)) k) = None"
  by (simp add: removeCall_def)

lemma registerCall_Close_pending:
  "(\<forall>j. j \<noteq> seq client \<longrightarrow> pending (snd (registerCall client call0)) j = pending client j) \<and>
   (\<not> closing client \<and> \<not> shutdown client \<longrightarrow>
      pending (snd (registerCall client call0)) (seq client) = Some (call0\<lparr>Seq := seq client\<rparr>)) \<and>
   pending (snd (Close client)) = pending client"
  by (simp add: registerCall_def Close_def Let_def)

lemma terminateCalls_send_no_room: "terminateCalls_send False client = None"
  by (simp add: terminateCalls_send_def call_done_def split: option.splits list.splits prod.splits)

lemma terminateCalls_steps:
  "terminateCalls_send False client = None \<and>
   (terminating client \<noteq> None \<longrightarrow>
      exec client (OpRegister call0) = (NoStep, client) \<and>
      exec client (OpRemove k) = (NoStep, client) \<and>
      exec client OpClose = (NoStep, client)) \<and>
   shutdown (terminateCalls_begin client err ks) \<and>
   dom (pending (terminateCalls_begin client err ks)) = dom (pending client) \<and>
   (\<forall>c1. terminateCalls_send room client = Some c1 \<longrightarrow> dom (pending c1) = dom (pending client))"
proof -
  have a: "shutdown (terminateCalls_begin client err ks)"
    by (cases ks) (simp_all add: terminateCalls_begin_def set_Error_fields)
  have b: "dom (pending (terminateCalls_begin client err ks)) = dom (pending client)"
    by (auto simp: terminateCalls_begin_pending dom_def split: if_splits)
  have c: "\<forall>c1. terminateCalls_send room client = Some c1 \<longrightarrow> dom (pending c1) = dom (pending client)"
  proof (intro allI impI)
    fix c1 assume h: "terminateCalls_send room client = Some c1"
    then have "exec client (OpDone room) = (Signalled, c1)" by simp
    from exec_other [OF this] show "dom (pending c1) = dom (pending client)"
      by (auto simp: dom_def)
  qed
  show ?thesis using a b c by (simp add: terminateCalls_send_no_room)
qed

lemma terminateCalls_runs:
  "terminating client = None \<and> distinct ks \<and> set ks = dom (pending client) \<and> i \<le> length ks \<longrightarrow>
     run client (OpTerminate err ks # replicate i (OpDone True)) =
       (Started # replicate i Signalled, terminateCalls_at client err ks i) \<and>
     shutdown (terminateCalls_at client err ks i) \<and>
     (i < length ks \<longrightarrow>
        terminating (terminateCalls_at client err ks i) \<noteq> None \<and>
        run client (OpTerminate err ks # replicate i (OpDone True) @ [OpDone False]) =
          (Started # replicate i Signalled @ [NoStep], terminateCalls_at client err ks i) \<and>
        (\<forall>call. pending client (ks ! i) = Some call \<longrightarrow>
           pending (terminateCalls_at client err ks i) (ks ! i) = Some (call\<lparr>Error := err\<rparr>)) \<and>
        (\<forall>n. i < n \<and> n < length ks \<longrightarrow>
           pending (terminateCalls_at client err ks i) (ks ! n) = pending client (ks ! n))) \<and>
     (i = length ks \<longrightarrow>
        terminating (terminateCalls_at client err ks i) = None \<and>
        (\<forall>j call. pending client j = Some call \<longrightarrow>
           pending (terminateCalls_at client err ks i) j =
             Some (call\<lparr>Error := err, Done := Done call + 1\<rparr>)) \<and>
        (\<forall>j. pending client j = None \<longrightarrow> pending (terminateCalls_at client err ks i) j = None))"
proof (intro impI, elim conjE)
  assume t: "terminating client = None" and d: "distinct ks"
    and s: "set ks = dom (pending client)" and i: "i \<le> length ks"
  have r: "run client (OpTerminate err ks # replicate i (OpDone True)) =
       (Started # replicate i Signalled, terminateCalls_at client err ks i)"
    by (rule run_terminateCalls [OF t d s i])
  have sh: "shutdown (terminateCalls_at client err ks i)" by (simp add: terminateCalls_at_def)
  have p: "i < length ks \<longrightarrow>
        terminating (terminateCalls_at client err ks i) \<noteq> None \<and>
        run client (OpTerminate err ks # replicate i (OpDone True) @ [OpDone False]) =
          (Started # replicate i Signalled @ [NoStep], terminateCalls_at client err ks i) \<and>
        (\<forall>call. pending client (ks ! i) = Some call \<longrightarrow>
           pending (terminateCalls_at client err ks i) (ks ! i) = Some (call\<lparr>Error := err\<rparr>)) \<and>
        (\<forall>n. i < n \<and> n < length ks \<longrightarrow>
           pending (terminateCalls_at client err ks i) (ks ! n) = pending client (ks ! n))"
  proof
    assume l: "i < length ks"
    have 1: "terminating (terminateCalls_at client err ks i) \<noteq> None"
      using l by (simp add: terminateCalls_at_def)
    have "run client ((OpTerminate err ks # replicate i (OpDone True)) @ [OpDone False]) =
          ((Started # replicate i Signalled) @ [NoStep], terminateCalls_at client err ks i)"
      unfolding run_append r by (simp add: terminateCalls_send_no_room)
    then have 2: "run client (OpTerminate err ks # replicate i (OpDone True) @ [OpDone False]) =
          (Started # replicate i Signalled @ [NoStep], terminateCalls_at client err ks i)"
      by simp
    have nt: "\<And>n. i \<le> n \<Longrightarrow> n < length ks \<Longrightarrow> ks ! n \<notin> set (take i ks)"
      using d by (auto simp add: in_set_conv_nth nth_eq_iff_index_eq)
    have 3: "\<forall>call. pending client (ks ! i) = Some call \<longrightarrow>
           pending (terminateCalls_at client err ks i) (ks ! i) = Some (call\<lparr>Error := err\<rparr>)"
      using l nt [of i] by (simp add: terminateCalls_at_def)
    have 4: "\<forall>n. i < n \<and> n < length ks \<longrightarrow>
           pending (terminateCalls_at client err ks i) (ks ! n) = pending client (ks ! n)"
      using l nt d by (auto simp add: terminateCalls_at_def nth_eq_iff_index_eq)
    from 1 2 3 4 show "terminating (terminateCalls_at client err ks i) \<noteq> None \<and>
        run client (OpTerminate err ks # replicate i (OpDone True) @ [OpDone False]) =
          (Started # replicate i Signalled @ [NoStep], terminateCalls_at client err ks i) \<and>
        (\<forall>call. pending client (ks ! i) = Some call \<longrightarrow>
           pending (terminateCalls_at client err ks i) (ks ! i) = Some (call\<lparr>Error := err\<rparr>)) \<and>
        (\<forall>n. i < n \<and> n < length ks \<longrightarrow>
           pending (terminateCalls_at client err ks i) (ks ! n) = pending client (ks ! n))"
      by blast
  qed
  have q: "i = length ks \<longrightarrow>
        terminating (terminateCalls_at client err ks i) = None \<and>
        (\<forall>j call. pending client j = Some call \<longrightarrow>
           pending (terminateCalls_at client err ks i) j =
             Some (call\<lparr>Error := err, Done := Done call + 1\<rparr>)) \<and>
        (\<forall>j. pending client j = None \<longrightarrow> pending (terminateCalls_at client err ks i) j = None)"
    using s by (auto simp add: terminateCalls_at_def)
  from r sh p q show "run client (OpTerminate err ks # replicate i (OpDone True)) =
       (Started # replicate i Signalled, terminateCalls_at client err ks i) \<and>
     shutdown (terminateCalls_at client err ks i) \<and>
     (i < length ks \<longrightarrow>
        terminating (terminateCalls_at client err ks i) \<noteq> None \<and>
        run client (OpTerminate err ks # replicate i (OpDone True) @ [OpDone False]) =
          (Started # replicate i Signalled @ [NoStep], terminateCalls_at client err ks i) \<and>
        (\<forall>call. pending client (ks ! i) = Some call \<longrightarrow>
           pending (terminateCalls_at client err ks i) (ks ! i) = Some (call\<lparr>Error := err\<rparr>)) \<and>
        (\<forall>n. i < n \<and> n < length ks \<longrightarrow>
           pending (terminateCalls_at client err ks i) (ks ! n) = pending client (ks ! n))) \<and>
     (i = length ks \<longrightarrow>
        terminating (terminateCalls_at client err ks i) = None \<and>
        (\<forall>j call. pending client j = Some call \<longrightarrow>
           pending (terminateCalls_at client err ks i) j =
             Some (call\<lparr>Error := err, Done := Done call + 1\<rparr>)) \<and>
        (\<forall>j. pending client j = None \<longrightarrow> pending (terminateCalls_at client err ks i) j = None))"
    by (intro conjI)
qed

lemma new_client_run:
  "run (newClientCodec c0 o0) xs = (obs, client') \<and> length (assigned obs) < 2 ^ 64 \<longrightarrow>
      distinct (map Seq (removed obs)) \<and>
      Seq ` set (removed obs) \<subseteq> set (assigned obs) \<and>
      dom (pending client') = set (assigned obs) - Seq ` set (removed obs) \<and>
      (\<forall>k call. pending client' k = Some call \<longrightarrow> Seq call = k)"
proof
  assume h: "run (newClientCodec c0 o0) xs = (obs, client') \<and> length (assigned obs) < 2 ^ 64"
  have 1: "seq (newClientCodec c0 o0 :: 'v Client) = of_nat 1"
    and 2: "pending_ok (newClientCodec c0 o0 :: 'v Client) 1"
    and 3: "dom (pending (newClientCodec c0 o0 :: 'v Client)) = {}"
    by (simp_all add: newClientCodec_def pending_ok_def)
  have 4: "1 + length (assigned obs) \<le> 2 ^ 64" using h by simp
  from h have 5: "run (newClientCodec c0 o0) xs = (obs, client')" by simp
  from run_pending [OF 5 1 4 2, unfolded 3]
  show "distinct (map Seq (removed obs)) \<and>
      Seq ` set (removed obs) \<subseteq> set (assigned obs) \<and>
      dom (pending client') = set (assigned obs) - Seq ` set (removed obs) \<and>
      (\<forall>k call. pending client' k = Some call \<longrightarrow> Seq call = k)"
    by (simp add: pending_ok_def)
qed

lemma client_examples:
  "\<not> closing (snd (registerCall example_client example_call)) \<and> \<not> shutdown (snd (registerCall example_client example_call)) \<and> terminating (snd (registerCall example_client example_call)) = None \<and>
   distinct [1 :: u64] \<and> set [1] = dom (pending (snd (registerCall example_client example_call))) \<and>
   pending (snd (registerCall example_client example_call)) 1 = Some (example_call\<lparr>Seq := 1\<rparr>) \<and>
   fst (run (snd (registerCall example_client example_call)) [OpTerminate (Some (Err ''EOF'')) [1], OpDone False, OpRemove 1, OpClose, OpRegister example_call])
     = [Started, NoStep, NoStep, NoStep, NoStep] \<and>
   terminating (snd (run (snd (registerCall example_client example_call)) [OpTerminate (Some (Err ''EOF'')) [1], OpDone False])) \<noteq> None \<and>
   pending (snd (run (snd (registerCall example_client example_call)) [OpTerminate (Some (Err ''EOF'')) [1], OpDone False])) 1
     = Some (example_call\<lparr>Seq := 1, Error := (Some (Err ''EOF''))\<rparr>) \<and>
   terminateCalls_send True (terminateCalls_begin (snd (registerCall example_client example_call)) (Some (Err ''EOF'')) [1]) \<noteq> None \<and>
   fst (run (snd (registerCall example_client example_call)) [OpTerminate (Some (Err ''EOF'')) [1], OpDone True]) = [Started, Signalled] \<and>
   terminating (snd (run (snd (registerCall example_client example_call)) [OpTerminate (Some (Err ''EOF'')) [1], OpDone True])) = None \<and>
   pending (snd (run (snd (registerCall example_client example_call)) [OpTerminate (Some (Err ''EOF'')) [1], OpDone True])) 1
     = Some (example_call\<lparr>Seq := 1, Error := (Some (Err ''EOF'')), Done := 1\<rparr>) \<and>
   length (assigned (fst (run example_client [OpRegister example_call, OpRegister example_call, OpRemove 1, OpRemove 1, OpRemove 2]))) < 2 ^ 64 \<and>
   assigned (fst (run example_client [OpRegister example_call, OpRegister example_call, OpRemove 1, OpRemove 1, OpRemove 2])) = [1, 2] \<and>
   map Seq (removed (fst (run example_client [OpRegister example_call, OpRegister example_call, OpRemove 1, OpRemove 1, OpRemove 2]))) = [1, 2] \<and>
   dom (pending (snd (run example_client [OpRegister example_call, OpRegister example_call, OpRemove 1, OpRemove 1, OpRemove 2]))) = {}"
  by (simp add: example_client_def newClientCodec_def registerCall_def removeCall_def Let_def
        example_call_def terminateCalls_begin_def terminateCalls_send_def set_Error_def
        call_done_def Close_def)

text \<open>
  Claim C6, with the bound the 64-bit counter forces. A new client's counter is 1. A
  registration on a client that is neither closing nor shut down returns the counter's value,
  stores it in the call's \<open>Seq\<close>, files the call under it and adds one to the counter. In any
  run of a new client in which fewer than \<open>2 ^ 64\<close> registrations succeed, the sequence
  numbers handed out are \<open>1, 2, ..., N\<close> in this order, so they increase strictly and none
  is handed out twice.
\<close>

theorem seq_assignment:
  "seq (newClientCodec c0 o0 :: 'v Client) = 1 \<and>
   (\<not> closing client \<and> \<not> shutdown client \<longrightarrow>
      fst (registerCall client call) = Inr (seq client, call\<lparr>Seq := seq client\<rparr>) \<and>
      seq (snd (registerCall client call)) = seq client + 1 \<and>
      pending (snd (registerCall client call)) (seq client) = Some (call\<lparr>Seq := seq client\<rparr>)) \<and>
   (run (newClientCodec c0 o0) xs = (obs, client') \<and> length (assigned obs) < 2 ^ 64 \<longrightarrow>
      map unat (assigned obs) = [1..<Suc (length (assigned obs))] \<and>
      sorted_wrt (<) (assigned obs) \<and> distinct (assigned obs))"
proof (intro conjI impI)
  show "seq (newClientCodec c0 o0 :: 'v Client) = 1" by (simp add: newClientCodec_def)
next
  assume "\<not> closing client \<and> \<not> shutdown client"
  then show "fst (registerCall client call) = Inr (seq client, call\<lparr>Seq := seq client\<rparr>)"
    and "seq (snd (registerCall client call)) = seq client + 1"
    and "pending (snd (registerCall client call)) (seq client) = Some (call\<lparr>Seq := seq client\<rparr>)"
    by (simp_all add: registerCall_def Let_def)
next
  assume h: "run (newClientCodec c0 o0) xs = (obs, client') \<and> length (assigned obs) < 2 ^ 64"
  have m: "map unat (assigned obs) = [1..<Suc (length (assigned obs))]"
    using h assigned_from_one [of "newClientCodec c0 o0" xs obs client']
    by (simp add: newClientCodec_def)
  show "map unat (assigned obs) = [1..<Suc (length (assigned obs))]" by (rule m)
  have "sorted_wrt (<) (map unat (assigned obs))" unfolding m by (rule sorted_wrt_upt)
  then show "sorted_wrt (<) (assigned obs)"
    by (simp add: sorted_wrt_map word_less_nat_alt [abs_def])
  have "distinct (map unat (assigned obs))" unfolding m by (rule distinct_upt)
  then show "distinct (assigned obs)" by (simp add: distinct_map)
qed

text \<open>
  The theorem at a run that registers a call, removes it and registers another one: the
  two registrations get 1 and 2.
\<close>

theorem seq_assignment_witness:
  "seq example_client = 1 \<and>
   \<not> closing example_client \<and> \<not> shutdown example_client \<and>
   length (assigned (fst (run example_client
      [OpRegister example_call, OpRemove 1, OpRegister example_call]))) < 2 ^ 64 \<and>
   assigned (fst (run example_client
      [OpRegister example_call, OpRemove 1, OpRegister example_call])) = [1, 2] \<and>
   fst (registerCall example_client example_call) = Inr (1, example_call\<lparr>Seq := 1\<rparr>)"
  using seq_assignment [of example_codec DefaultOption example_client example_call
      "[OpRegister example_call, OpRemove 1, OpRegister example_call]"
      "fst (run example_client [OpRegister example_call, OpRemove 1, OpRegister example_call])"
      "snd (run example_client [OpRegister example_call, OpRemove 1, OpRegister example_call])"]
  by (simp add: example_client_def newClientCodec_def registerCall_def removeCall_def Let_def)

text \<open>
  Without the bound the claim fails: the counter is a \<open>uint64\<close>, so of \<open>2 ^ 64 + 1\<close>
  registrations on one client the first and the last both get the sequence number 1.
\<close>

theorem seq_reused_after_wraparound:
  "length (assigned (fst (run example_client
      (replicate (2 ^ 64 + 1) (OpRegister example_call))))) = 2 ^ 64 + 1 \<and>
   assigned (fst (run example_client (replicate (2 ^ 64 + 1) (OpRegister example_call)))) ! 0 = 1 \<and>
   assigned (fst (run example_client (replicate (2 ^ 64 + 1) (OpRegister example_call)))) ! (2 ^ 64) = 1"
proof -
  let ?r = "run example_client (replicate (2 ^ 64 + 1) (OpRegister example_call))"
  have len: "length (assigned (fst ?r)) = 2 ^ 64 + 1"
    by (rule run_replicate_register) (simp_all add: example_client_def newClientCodec_def)
  have "assigned (fst ?r) = map (\<lambda>k. 1 + of_nat k) [0..<length (assigned (fst ?r))]"
    using run_assigned [of example_client _ "fst ?r" "snd ?r"]
    by (simp add: example_client_def newClientCodec_def)
  then have a: "assigned (fst ?r) = map (\<lambda>k. 1 + of_nat k) [0..<2 ^ 64 + 1]"
    by (simp only: len)
  have "assigned (fst ?r) ! 0 = 1"
    by (subst a, subst nth_map) simp_all
  moreover have "assigned (fst ?r) ! (2 ^ 64) = 1"
    by (subst a, subst nth_map) simp_all
  ultimately show ?thesis using len by blast
qed

text \<open>
  Claim C2, as the code has it. \<open>removeCall\<close> returns the entry filed under a sequence
  number and deletes that entry and no other, so a second \<open>removeCall\<close> of the number returns
  \<open>nil\<close>. \<open>registerCall\<close> writes the entry at the counter's value, whatever was there, and
  no other entry; \<open>Close\<close> leaves the table alone.

  \<open>terminateCalls\<close> deletes nothing. A send of its loop on a channel without room does not
  return: the function stays in it, holding \<open>mu\<close>, so that \<open>registerCall\<close>, \<open>removeCall\<close>
  and \<open>Close\<close> cannot run; the call it is at has the error and has not been signalled, the
  calls after it are as they were. When \<open>i\<close> sends have gone through the client is
  \<open>terminateCalls_at client err ks i\<close>; when all have, every pending call has the error and
  one more send on \<open>Done\<close>, and the table has the keys it had.

  In a run of a new client with fewer than \<open>2 ^ 64\<close> successful registrations, no two calls
  that \<open>removeCall\<close> hands out have the same sequence number, each of them was registered,
  the keys left in the table are the registered numbers that \<open>removeCall\<close> has not handed
  out, and every entry sits at its own sequence number: a call leaves the table at most
  once, and through \<open>removeCall\<close> only.
\<close>

theorem pending_removal:
  "(fst (removeCall client k) = pending client k \<and>
    pending (snd (removeCall client k)) k = None \<and>
    (\<forall>j. j \<noteq> k \<longrightarrow> pending (snd (removeCall client k)) j = pending client j) \<and>
    fst (removeCall (snd (removeCall client k)) k) = None) \<and>
   ((\<forall>j. j \<noteq> seq client \<longrightarrow> pending (snd (registerCall client call0)) j = pending client j) \<and>
    (\<not> closing client \<and> \<not> shutdown client \<longrightarrow>
       pending (snd (registerCall client call0)) (seq client) = Some (call0\<lparr>Seq := seq client\<rparr>)) \<and>
    pending (snd (Close client)) = pending client) \<and>
   (terminateCalls_send False client = None \<and>
    (terminating client \<noteq> None \<longrightarrow>
       exec client (OpRegister call0) = (NoStep, client) \<and>
       exec client (OpRemove k) = (NoStep, client) \<and>
       exec client OpClose = (NoStep, client)) \<and>
    shutdown (terminateCalls_begin client err ks) \<and>
    dom (pending (terminateCalls_begin client err ks)) = dom (pending client) \<and>
    (\<forall>c1. terminateCalls_send room client = Some c1 \<longrightarrow> dom (pending c1) = dom (pending client))) \<and>
   (terminating client = None \<and> distinct ks \<and> set ks = dom (pending client) \<and> i \<le> length ks \<longrightarrow>
     run client (OpTerminate err ks # replicate i (OpDone True)) =
       (Started # replicate i Signalled, terminateCalls_at client err ks i) \<and>
     shutdown (terminateCalls_at client err ks i) \<and>
     (i < length ks \<longrightarrow>
        terminating (terminateCalls_at client err ks i) \<noteq> None \<and>
        run client (OpTerminate err ks # replicate i (OpDone True) @ [OpDone False]) =
          (Started # replicate i Signalled @ [NoStep], terminateCalls_at client err ks i) \<and>
        (\<forall>call. pending client (ks ! i) = Some call \<longrightarrow>
           pending (terminateCalls_at client err ks i) (ks ! i) = Some (call\<lparr>Error := err\<rparr>)) \<and>
        (\<forall>n. i < n \<and> n < length ks \<longrightarrow>
           pending (terminateCalls_at client err ks i) (ks ! n) = pending client (ks ! n))) \<and>
     (i = length ks \<longrightarrow>
        terminating (terminateCalls_at client err ks i) = None \<and>
        (\<forall>j call. pending client j = Some call \<longrightarrow>
           pending (terminateCalls_at client err ks i) j =
             Some (call\<lparr>Error := err, Done := Done call + 1\<rparr>)) \<and>
        (\<forall>j. pending client j = None \<longrightarrow> pending (terminateCalls_at client err ks i) j = None))) \<and>
   (run (newClientCodec c0 o0) xs = (obs, client') \<and> length (assigned obs) < 2 ^ 64 \<longrightarrow>
      distinct (map Seq (removed obs)) \<and>
      Seq ` set (removed obs) \<subseteq> set (assigned obs) \<and>
      dom (pending client') = set (assigned obs) - Seq ` set (removed obs) \<and>
      (\<forall>k call. pending client' k = Some call \<longrightarrow> Seq call = k))"
  by (rule conjI [OF removeCall_pending conjI [OF registerCall_Close_pending
        conjI [OF terminateCalls_steps conjI [OF terminateCalls_runs new_client_run]]]])

text \<open>
  The theorem at a client with call 1 pending. \<open>terminateCalls\<close> with a send that finds no
  room parks: \<open>removeCall\<close>, \<open>Close\<close> and \<open>registerCall\<close> take no step, and call 1 has the
  error but no signal. With room call 1 is completed and stays in the table. In the second
  run the receive loop takes call 1 out of the table and a later \<open>removeCall\<close> of 1 (the
  write-error path of \<open>send\<close>, or a cancellation) finds nothing.
\<close>

theorem pending_removal_witness:
  "\<not> closing (snd (registerCall example_client example_call)) \<and> \<not> shutdown (snd (registerCall example_client example_call)) \<and> terminating (snd (registerCall example_client example_call)) = None \<and>
   distinct [1 :: u64] \<and> set [1] = dom (pending (snd (registerCall example_client example_call))) \<and>
   pending (snd (registerCall example_client example_call)) 1 = Some (example_call\<lparr>Seq := 1\<rparr>) \<and>
   fst (run (snd (registerCall example_client example_call)) [OpTerminate (Some (Err ''EOF'')) [1], OpDone False, OpRemove 1, OpClose, OpRegister example_call])
     = [Started, NoStep, NoStep, NoStep, NoStep] \<and>
   terminating (snd (run (snd (registerCall example_client example_call)) [OpTerminate (Some (Err ''EOF'')) [1], OpDone False])) \<noteq> None \<and>
   pending (snd (run (snd (registerCall example_client example_call)) [OpTerminate (Some (Err ''EOF'')) [1], OpDone False])) 1
     = Some (example_call\<lparr>Seq := 1, Error := (Some (Err ''EOF''))\<rparr>) \<and>
   terminateCalls_send True (terminateCalls_begin (snd (registerCall example_client example_call)) (Some (Err ''EOF'')) [1]) \<noteq> None \<and>
   fst (run (snd (registerCall example_client example_call)) [OpTerminate (Some (Err ''EOF'')) [1], OpDone True]) = [Started, Signalled] \<and>
   terminating (snd (run (snd (registerCall example_client example_call)) [OpTerminate (Some (Err ''EOF'')) [1], OpDone True])) = None \<and>
   pending (snd (run (snd (registerCall example_client example_call)) [OpTerminate (Some (Err ''EOF'')) [1], OpDone True])) 1
     = Some (example_call\<lparr>Seq := 1, Error := (Some (Err ''EOF'')), Done := 1\<rparr>) \<and>
   length (assigned (fst (run example_client [OpRegister example_call, OpRegister example_call, OpRemove 1, OpRemove 1, OpRemove 2]))) < 2 ^ 64 \<and>
   assigned (fst (run example_client [OpRegister example_call, OpRegister example_call, OpRemove 1, OpRemove 1, OpRemove 2])) = [1, 2] \<and>
   map Seq (removed (fst (run example_client [OpRegister example_call, OpRegister example_call, OpRemove 1, OpRemove 1, OpRemove 2]))) = [1, 2] \<and>
   dom (pending (snd (run example_client [OpRegister example_call, OpRegister example_call, OpRemove 1, OpRemove 1, OpRemove 2]))) = {}"
  using pending_removal [of "(snd (registerCall example_client example_call))" 1 example_call
      "(Some (Err ''EOF''))" "[1]" True 0 example_codec DefaultOption
      "[OpRegister example_call, OpRegister example_call, OpRemove 1, OpRemove 1, OpRemove 2]" "fst (run example_client [OpRegister example_call, OpRegister example_call, OpRemove 1, OpRemove 1, OpRemove 2])" "snd (run example_client [OpRegister example_call, OpRegister example_call, OpRemove 1, OpRemove 1, OpRemove 2])"]
    pending_removal [of "(snd (registerCall example_client example_call))" 1 example_call
      "(Some (Err ''EOF''))" "[1]" True 1 example_codec DefaultOption
      "[OpRegister example_call, OpRegister example_call, OpRemove 1, OpRemove 1, OpRemove 2]" "fst (run example_client [OpRegister example_call, OpRegister example_call, OpRemove 1, OpRemove 1, OpRemove 2])" "snd (run example_client [OpRegister example_call, OpRegister example_call, OpRemove 1, OpRemove 1, OpRemove 2])"]
    pending_removal [of "terminateCalls_begin (snd (registerCall example_client example_call)) (Some (Err ''EOF'')) [1]" 1 example_call
      "(Some (Err ''EOF''))" "[1]" True 0 example_codec DefaultOption
      "[OpRegister example_call, OpRegister example_call, OpRemove 1, OpRemove 1, OpRemove 2]" "fst (run example_client [OpRegister example_call, OpRegister example_call, OpRemove 1, OpRemove 1, OpRemove 2])" "snd (run example_client [OpRegister example_call, OpRegister example_call, OpRemove 1, OpRemove 1, OpRemove 2])"]
  by - (rule client_examples)

text \<open>
  The claim as stated fails: a call that was registered and then completed by
  \<open>terminateCalls\<close>, which has returned, is still in the pending table.
\<close>

theorem terminateCalls_keeps_completed_call:
  "fst (run example_client [OpRegister example_call, OpTerminate (Some (Err ''EOF'')) [1], OpDone True])
     = [Registered 1, Started, Signalled] \<and>
   terminating (snd (run example_client
      [OpRegister example_call, OpTerminate (Some (Err ''EOF'')) [1], OpDone True])) = None \<and>
   pending (snd (run example_client [OpRegister example_call, OpTerminate (Some (Err ''EOF'')) [1], OpDone True])) 1
     = Some (example_call\<lparr>Seq := 1, Error := (Some (Err ''EOF'')), Done := 1\<rparr>)"
  by (simp add: example_client_def newClientCodec_def registerCall_def Let_def
        example_call_def terminateCalls_begin_def terminateCalls_send_def set_Error_def
        call_done_def)



section \<open>Option merging\<close>

text \<open>
  Claim C4, as the code has it. With no option, or with a \<open>nil\<close> first option however many
  follow, \<open>parseOptions\<close> returns the default option. With more than one option, the first
  of them not \<open>nil\<close>, it returns the error \<open>number of options is more than 1\<close>. With one
  option it returns that option with the default codec type put in when the codec type is
  empty; \<open>parseOptions\<close> of client.go changes nothing else, so the magic number stays as
  supplied, while \<open>parseOptions\<close> of the older client (src/unnamed/part_003) also sets the
  magic number to the default.
\<close>

theorem parseOptions_result:
  "parseOptions [] = Inr DefaultOption \<and>
   parseOptions (None # rest) = Inr DefaultOption \<and>
   parseOptions (Some o1 # x # rest) = Inl (Err ''number of options is more than 1'') \<and>
   parseOptions [Some o1] =
     Inr (o1\<lparr>CodecType := (if CodecType o1 = [] then ''application/gob'' else CodecType o1)\<rparr>) \<and>
   parseOptions_part_003 [] = Inr DefaultOption \<and>
   parseOptions_part_003 (None # rest) = Inr DefaultOption \<and>
   parseOptions_part_003 (Some o1 # x # rest) = Inl (Err ''number of options is more than 1'') \<and>
   parseOptions_part_003 [Some o1] =
     Inr (o1\<lparr>MagicNumber := 0x5add9a7,
             CodecType := (if CodecType o1 = [] then ''application/gob'' else CodecType o1)\<rparr>)"
  by (simp add: DefaultOption_def GobType_def MagicNumber_const_def Let_def)

text \<open>
  The claim as stated fails twice. The older \<open>parseOptions\<close> replaces the magic number
  123456 of the supplied option by the default, and \<open>parseOptions\<close> of client.go, called
  with two options of which the first is \<open>nil\<close>, returns the default option and no error.
\<close>

theorem parseOptions_counterexample:
  "parseOptions_part_003 [Some tampered_option] =
     Inr \<lparr>MagicNumber = 0x5add9a7, CodecType = ''application/gob'', ConnectTimeout = 0, HandleTimeout = 0\<rparr> \<and>
   MagicNumber tampered_option = 123456 \<and>
   parseOptions [None, Some tampered_option] = Inr DefaultOption"
  by (simp add: tampered_option_def DefaultOption_def GobType_def MagicNumber_const_def Let_def)

section \<open>Service registry\<close>

lemma registerMethod_lookup:
  "registerMethod IsExported tab m nm =
     (if eligible IsExported m \<and> Name m = nm then Some (descriptor m) else tab nm)"
  by (auto simp: registerMethod_def eligible_def descriptor_def NumIn_def NumOut_def In_def Out_def Let_def)

lemma foldl_registerMethod_defined:
  "(foldl (registerMethod IsExported) tab ms nm \<noteq> None) =
     (tab nm \<noteq> None \<or> (\<exists>m \<in> set ms. Name m = nm \<and> eligible IsExported m))"
  by (induction ms arbitrary: tab) (auto simp: registerMethod_lookup)

lemma foldl_registerMethod_value:
  "foldl (registerMethod IsExported) tab ms nm = Some mt \<Longrightarrow>
     tab nm = Some mt \<or>
     (\<exists>m \<in> set ms. Name m = nm \<and> eligible IsExported m \<and> mt = descriptor m)"
proof (induction ms arbitrary: tab)
  case Nil
  then show ?case by simp
next
  case (Cons m ms)
  from Cons.IH [of "registerMethod IsExported tab m"] Cons.prems
  show ?case by (auto simp: registerMethod_lookup split: if_splits)
qed

text \<open>The loop of \<open>registerMethods\<close> sees the exported methods of the method set, each once.\<close>

lemma set_visible_methods:
  "set (visible_methods IsExported ms) = {m \<in> set ms. IsExported (Name m)}"
  by (simp add: visible_methods_def)

lemma registerMethods_defined:
  "(method_map (registerMethods IsExported s) nm \<noteq> None) =
     (\<exists>m \<in> set (typ_methods s). Name m = nm \<and> IsExported (Name m) \<and> eligible IsExported m)"
  using foldl_registerMethod_defined [of IsExported Map.empty "visible_methods IsExported (typ_methods s)" nm]
  by (auto simp add: registerMethods_def set_visible_methods)

lemma registerMethods_value:
  assumes "method_map (registerMethods IsExported s) nm = Some mt"
  shows "\<exists>m \<in> set (typ_methods s).
           Name m = nm \<and> IsExported (Name m) \<and> eligible IsExported m \<and> mt = descriptor m"
  using foldl_registerMethod_value [of IsExported Map.empty "visible_methods IsExported (typ_methods s)" nm mt]
    assms
  by (auto simp add: registerMethods_def set_visible_methods)

lemma registerMethods_at:
  assumes d: "distinct (map Name (typ_methods s))" and m: "m \<in> set (typ_methods s)"
  shows "method_map (registerMethods IsExported s) (Name m) =
           (if IsExported (Name m) \<and> eligible IsExported m then Some (descriptor m) else None)"
proof -
  have u: "\<And>m'. m' \<in> set (typ_methods s) \<Longrightarrow> Name m' = Name m \<Longrightarrow> m' = m"
    using d m by (meson distinct_map inj_onD)
  show ?thesis
  proof (cases "method_map (registerMethods IsExported s) (Name m)")
    case None
    then have "\<not> (IsExported (Name m) \<and> eligible IsExported m)"
      using registerMethods_defined [of IsExported s "Name m"] m by auto
    with None show ?thesis by simp
  next
    case (Some mt)
    from registerMethods_value [OF Some] obtain m' where
      "m' \<in> set (typ_methods s)" "Name m' = Name m" "IsExported (Name m')"
      "eligible IsExported m'" "mt = descriptor m'"
      by blast
    with u [of m'] Some show ?thesis by simp
  qed
qed

text \<open>
  Claim C3, as the code has it. A method of the receiver's method set is in the method map
  of the registered service if and only if its name is exported (the reflection library
  shows the loop no other method), it has three inputs (the receiver and two more) and one
  output, the output is the type \<open>error\<close>, and both inputs after the receiver are exported
  or built-in types, which a type is when its name is exported or its package path is
  empty, as it is for every pointer, map and slice type. The entry holds the method with
  its second input as \<open>ArgType\<close> and its third as \<open>ReplyType\<close> and a call count of 0;
  whether the reply type is a pointer is not looked at. Every other method is skipped, and
  the registration succeeds whatever the methods are: \<open>newService\<close> returns the service
  when the receiver's type name is exported, and \<open>Register\<close> returns no error when,
  besides, no service of that name is registered. All this holds whatever names
  \<open>ast.IsExported\<close> accepts.
\<close>

theorem registerMethods_eligible:
  "(method_map (registerMethods IsExported s) nm \<noteq> None) =
     (\<exists>m \<in> set (typ_methods s).
        Name m = nm \<and> IsExported (Name m) \<and>
        length (ins (Type m)) = 3 \<and> length (outs (Type m)) = 1 \<and>
        outs (Type m) ! 0 = errorType \<and>
        isExportedOrBuiltinType IsExported (ins (Type m) ! 1) \<and>
        isExportedOrBuiltinType IsExported (ins (Type m) ! 2)) \<and>
   (method_map (registerMethods IsExported s) nm = Some mt \<longrightarrow>
     (\<exists>m \<in> set (typ_methods s).
        Name m = nm \<and>
        mt = \<lparr>rmethod = m, ArgType = ins (Type m) ! 1, ReplyType = ins (Type m) ! 2, numCalls = 0\<rparr>)) \<and>
   (distinct (map Name (typ_methods s)) \<longrightarrow>
     (\<forall>m \<in> set (typ_methods s).
        method_map (registerMethods IsExported s) (Name m) =
          (if IsExported (Name m) \<and>
              length (ins (Type m)) = 3 \<and> length (outs (Type m)) = 1 \<and>
              outs (Type m) ! 0 = errorType \<and>
              isExportedOrBuiltinType IsExported (ins (Type m) ! 1) \<and>
              isExportedOrBuiltinType IsExported (ins (Type m) ! 2)
           then Some \<lparr>rmethod = m, ArgType = ins (Type m) ! 1, ReplyType = ins (Type m) ! 2,
                       numCalls = 0\<rparr>
           else None))) \<and>
   isExportedOrBuiltinType IsExported (PtrTo t) \<and>
   isExportedOrBuiltinType IsExported (MapOf t t') \<and>
   isExportedOrBuiltinType IsExported (SliceOf t) \<and>
   isExportedOrBuiltinType IsExported (Named pk n kd) = (IsExported n \<or> pk = []) \<and>
   (IsExported rn \<longrightarrow>
      newService IsExported rn ms =
        Some (registerMethods IsExported \<lparr>name = rn, typ_methods = ms, method_map = Map.empty\<rparr>)) \<and>
   (IsExported rn \<and> serviceMap server rn = None \<longrightarrow>
      Register IsExported server rn ms =
        Some (None, server\<lparr>serviceMap := (serviceMap server)
                (rn \<mapsto> registerMethods IsExported
                          \<lparr>name = rn, typ_methods = ms, method_map = Map.empty\<rparr>)\<rparr>))"
proof (intro conjI impI ballI)
  show "(method_map (registerMethods IsExported s) nm \<noteq> None) =
     (\<exists>m \<in> set (typ_methods s).
        Name m = nm \<and> IsExported (Name m) \<and>
        length (ins (Type m)) = 3 \<and> length (outs (Type m)) = 1 \<and>
        outs (Type m) ! 0 = errorType \<and>
        isExportedOrBuiltinType IsExported (ins (Type m) ! 1) \<and>
        isExportedOrBuiltinType IsExported (ins (Type m) ! 2))"
    using registerMethods_defined [of IsExported s nm] by (simp add: eligible_def)
next
  assume "method_map (registerMethods IsExported s) nm = Some mt"
  from registerMethods_value [OF this]
  show "\<exists>m \<in> set (typ_methods s).
        Name m = nm \<and>
        mt = \<lparr>rmethod = m, ArgType = ins (Type m) ! 1, ReplyType = ins (Type m) ! 2, numCalls = 0\<rparr>"
    by (auto simp: descriptor_def)
next
  fix m assume "distinct (map Name (typ_methods s))" and "m \<in> set (typ_methods s)"
  from registerMethods_at [OF this, of IsExported]
  show "method_map (registerMethods IsExported s) (Name m) =
          (if IsExported (Name m) \<and>
              length (ins (Type m)) = 3 \<and> length (outs (Type m)) = 1 \<and>
              outs (Type m) ! 0 = errorType \<and>
              isExportedOrBuiltinType IsExported (ins (Type m) ! 1) \<and>
              isExportedOrBuiltinType IsExported (ins (Type m) ! 2)
           then Some \<lparr>rmethod = m, ArgType = ins (Type m) ! 1, ReplyType = ins (Type m) ! 2,
                       numCalls = 0\<rparr>
           else None)"
    by (simp add: eligible_def descriptor_def)
next
  show "isExportedOrBuiltinType IsExported (PtrTo t)"
    and "isExportedOrBuiltinType IsExported (MapOf t t')"
    and "isExportedOrBuiltinType IsExported (SliceOf t)"
    and "isExportedOrBuiltinType IsExported (Named pk n kd) = (IsExported n \<or> pk = [])"
    by (simp_all add: isExportedOrBuiltinType_def)
next
  assume "IsExported rn"
  then show "newService IsExported rn ms =
        Some (registerMethods IsExported \<lparr>name = rn, typ_methods = ms, method_map = Map.empty\<rparr>)"
    by (simp add: newService_def)
next
  assume "IsExported rn \<and> serviceMap server rn = None"
  then show "Register IsExported server rn ms =
        Some (None, server\<lparr>serviceMap := (serviceMap server)
                (rn \<mapsto> registerMethods IsExported
                          \<lparr>name = rn, typ_methods = ms, method_map = Map.empty\<rparr>)\<rparr>)"
    by (simp add: Register_def newService_def registerMethods_def)
qed

lemmas Foo2_defs = Foo2_service_def Foo2_methods_def Foo2_Sum_def Foo2_SumArgPointer_def
  Foo2_SumRetMap_def Foo2_SumRetSlice_def t_int_def t_string_def t_Args_def t_Foo2_def pkg_def
  Foo_receiver_def Foo_Sum_def Foo_sum_def t_Foo_def

text \<open>
  The theorem at the receivers of the repository's test, for names in ASCII. Of \<open>Foo\<close> the
  method \<open>Sum\<close> is registered and \<open>sum\<close>, whose name is not exported, is not. Of \<open>Foo2\<close>
  the method \<open>Sum\<close>, with four inputs, is skipped, \<open>SumArgPointer\<close> is registered, and the
  registration succeeds.
\<close>

theorem registerMethods_eligible_witness:
  "distinct (map Name (typ_methods Foo_receiver)) \<and>
   method_map (registerMethods IsExported_ascii Foo_receiver) ''Sum'' =
     Some \<lparr>rmethod = Foo_Sum, ArgType = t_Args, ReplyType = PtrTo t_int, numCalls = 0\<rparr> \<and>
   method_map (registerMethods IsExported_ascii Foo_receiver) ''sum'' = None \<and>
   distinct (map Name (typ_methods Foo2_service)) \<and>
   method_map (registerMethods IsExported_ascii Foo2_service) ''Sum'' = None \<and>
   method_map (registerMethods IsExported_ascii Foo2_service) ''SumArgPointer'' =
     Some \<lparr>rmethod = Foo2_SumArgPointer, ArgType = PtrTo t_Args, ReplyType = PtrTo t_int, numCalls = 0\<rparr> \<and>
   IsExported_ascii ''Foo2'' \<and>
   newService IsExported_ascii ''Foo2'' Foo2_methods =
     Some (registerMethods IsExported_ascii Foo2_service) \<and>
   Register IsExported_ascii \<lparr>serviceMap = Map.empty\<rparr> ''Foo2'' Foo2_methods =
     Some (None, \<lparr>serviceMap = [''Foo2'' \<mapsto> registerMethods IsExported_ascii Foo2_service]\<rparr>)"
  using registerMethods_eligible [of IsExported_ascii Foo_receiver "''Sum''"
      "\<lparr>rmethod = Foo_Sum, ArgType = t_Args, ReplyType = PtrTo t_int, numCalls = 0\<rparr>"
      t_Args t_int _ _ _ "''Foo2''" Foo2_methods "\<lparr>serviceMap = Map.empty\<rparr>"]
    registerMethods_eligible [of IsExported_ascii Foo2_service "''SumArgPointer''"
      "\<lparr>rmethod = Foo2_SumArgPointer, ArgType = PtrTo t_Args, ReplyType = PtrTo t_int, numCalls = 0\<rparr>"
      t_Args t_int _ _ _ "''Foo2''" Foo2_methods "\<lparr>serviceMap = Map.empty\<rparr>"]
  by (simp add: Foo2_defs errorType_def isExportedOrBuiltinType_def IsExported_ascii_def)

text \<open>
  The claim as stated fails: \<open>SumRetMap\<close> of \<open>Foo2\<close> has the reply type
  \<open>map[string]map[string]int\<close>, which is a map and not a pointer, and it is registered.
\<close>

theorem non_pointer_reply_registered:
  "method_map (registerMethods IsExported_ascii Foo2_service) ''SumRetMap'' =
     Some \<lparr>rmethod = Foo2_SumRetMap, ArgType = PtrTo t_Args,
           ReplyType = MapOf t_string (MapOf t_string t_int), numCalls = 0\<rparr> \<and>
   type_Kind (MapOf t_string (MapOf t_string t_int)) = K_Map"
  using registerMethods_at [of Foo2_service Foo2_SumRetMap IsExported_ascii]
  by (simp add: Foo2_defs errorType_def isExportedOrBuiltinType_def IsExported_ascii_def
        eligible_def descriptor_def)

section \<open>Resolving a service method\<close>

lemma LastIndex_absent: "ch \<notin> set s \<Longrightarrow> LastIndex s ch = -1"
  by (induction s) (auto simp: Let_def)

lemma LastIndex_split: "ch \<notin> set ys \<Longrightarrow> LastIndex (xs @ ch # ys) ch = int (length xs)"
  by (induction xs) (auto simp: Let_def LastIndex_absent)

lemma a1: "CHR ''.'' \<notin> set sm \<Longrightarrow> findService server sm =
        (None, None, Some (Err (''rpc server: service/method request ill-formed: '' @ sm)))"
    by (simp add: findService_def LastIndex_absent)

lemma findService_split:
  assumes "CHR ''.'' \<notin> set mn"
  shows "findService server (sn @ CHR ''.'' # mn) =
     (case serviceMap server sn of
        None \<Rightarrow> (None, None, Some (Err (''rpc server: can't find service '' @ sn)))
      | Some svc \<Rightarrow>
          (case method_map svc mn of
             None \<Rightarrow> (Some svc, None, Some (Err (''rpc server: can't find method '' @ mn)))
           | Some mtype \<Rightarrow> (Some svc, Some mtype, None)))"
proof -
  have d: "LastIndex (sn @ CHR ''.'' # mn) (CHR ''.'') = int (length sn)"
    using assms by (rule LastIndex_split)
  have t: "take (nat (int (length sn))) (sn @ CHR ''.'' # mn) = sn" by simp
  have dr: "drop (nat (int (length sn) + 1)) (sn @ CHR ''.'' # mn) = mn"
    by (simp add: nat_add_distrib)
  show ?thesis
    unfolding findService_def d Let_def t dr by simp
qed

text \<open>
  Claim C7. A \<open>ServiceMethod\<close> without a dot gives the error
  \<open>rpc server: service/method request ill-formed: \<close> followed by the string. A string with a
  dot is \<open>sn.mn\<close> with no dot in \<open>mn\<close>, the split at its last dot, and for such a string:
  when no service \<open>sn\<close> is registered the error is \<open>rpc server: can't find service \<close>
  followed by \<open>sn\<close>; when the service is there and has no method \<open>mn\<close> the error is
  \<open>rpc server: can't find method \<close> followed by \<open>mn\<close>; otherwise the service and the
  method's descriptor are returned with no error.
\<close>

theorem findService_result:
  "(CHR ''.'' \<notin> set sm \<longrightarrow>
      findService server sm =
        (None, None, Some (Err (''rpc server: service/method request ill-formed: '' @ sm)))) \<and>
   (CHR ''.'' \<in> set sm \<longrightarrow> (\<exists>sn mn. sm = sn @ ''.'' @ mn \<and> CHR ''.'' \<notin> set mn)) \<and>
   (CHR ''.'' \<notin> set mn \<and> serviceMap server sn = None \<longrightarrow>
      findService server (sn @ ''.'' @ mn) =
        (None, None, Some (Err (''rpc server: can't find service '' @ sn)))) \<and>
   (CHR ''.'' \<notin> set mn \<and> serviceMap server sn = Some svc \<and> method_map svc mn = None \<longrightarrow>
      findService server (sn @ ''.'' @ mn) =
        (Some svc, None, Some (Err (''rpc server: can't find method '' @ mn)))) \<and>
   (CHR ''.'' \<notin> set mn \<and> serviceMap server sn = Some svc \<and> method_map svc mn = Some mt \<longrightarrow>
      findService server (sn @ ''.'' @ mn) = (Some svc, Some mt, None))"
proof (intro conjI impI)
  assume "CHR ''.'' \<notin> set sm"
  then show "findService server sm =
        (None, None, Some (Err (''rpc server: service/method request ill-formed: '' @ sm)))"
    by (rule a1)
next
  assume "CHR ''.'' \<in> set sm"
  then obtain xs ys where "sm = xs @ CHR ''.'' # ys" "CHR ''.'' \<notin> set ys"
    using split_list_last [of "CHR ''.''" sm] by blast
  then have "sm = xs @ ''.'' @ ys \<and> CHR ''.'' \<notin> set ys" by simp
  then show "\<exists>sn mn. sm = sn @ ''.'' @ mn \<and> CHR ''.'' \<notin> set mn" by blast
next
  have e: "sn @ ''.'' @ mn = sn @ CHR ''.'' # mn" by simp
  {
    assume "CHR ''.'' \<notin> set mn \<and> serviceMap server sn = None"
    then show "findService server (sn @ ''.'' @ mn) =
        (None, None, Some (Err (''rpc server: can't find service '' @ sn)))"
      unfolding e by (simp add: findService_split)
  next
    assume "CHR ''.'' \<notin> set mn \<and> serviceMap server sn = Some svc \<and> method_map svc mn = None"
    then show "findService server (sn @ ''.'' @ mn) =
        (Some svc, None, Some (Err (''rpc server: can't find method '' @ mn)))"
      unfolding e by (simp add: findService_split)
  next
    assume "CHR ''.'' \<notin> set mn \<and> serviceMap server sn = Some svc \<and> method_map svc mn = Some mt"
    then show "findService server (sn @ ''.'' @ mn) = (Some svc, Some mt, None)"
      unfolding e by (simp add: findService_split)
  }
qed

text \<open>
  The theorem at \<open>FooSum\<close> (no dot), \<open>a.Bar.Sum\<close> (split at the last dot, no service
  \<open>a.Bar\<close>), \<open>Foo.Mul\<close> (no such method) and \<open>Foo.Sum\<close>.
\<close>

theorem findService_result_witness:
  "findService \<lparr>serviceMap = [''Foo'' \<mapsto> Foo_service]\<rparr> ''FooSum'' =
     (None, None, Some (Err ''rpc server: service/method request ill-formed: FooSum'')) \<and>
   findService \<lparr>serviceMap = [''Foo'' \<mapsto> Foo_service]\<rparr> ''a.Bar.Sum'' =
     (None, None, Some (Err ''rpc server: can't find service a.Bar'')) \<and>
   findService \<lparr>serviceMap = [''Foo'' \<mapsto> Foo_service]\<rparr> ''Foo.Mul'' =
     (Some Foo_service, None, Some (Err ''rpc server: can't find method Mul'')) \<and>
   findService \<lparr>serviceMap = [''Foo'' \<mapsto> Foo_service]\<rparr> ''Foo.Sum'' =
     (Some Foo_service, method_map Foo_service ''Sum'', None) \<and>
   method_map Foo_service ''Sum'' \<noteq> None"
  using findService_result [of "''FooSum''" "\<lparr>serviceMap = [''Foo'' \<mapsto> Foo_service]\<rparr>" "''Sum''" "''a.Bar''" Foo_service]
    findService_result [of "''Foo.Mul''" "\<lparr>serviceMap = [''Foo'' \<mapsto> Foo_service]\<rparr>" "''Mul''" "''Foo''" Foo_service]
    findService_result [of "''Foo.Sum''" "\<lparr>serviceMap = [''Foo'' \<mapsto> Foo_service]\<rparr>" "''Sum''" "''Foo''" Foo_service
       "the (method_map Foo_service ''Sum'')"]
  by (simp add: Foo_service_def)

section \<open>The handler of one request\<close>

lemma hrun_invariant:
  assumes "hrun render timeout err s evs = Some s'" and "P s"
    and "\<And>s ev s1. P s \<Longrightarrow> hstep render timeout err s ev = Some s1 \<Longrightarrow> P s1"
  shows "P s'"
  using assms(1,2)
proof (induction evs arbitrary: s)
  case Nil
  then show ?case by simp
next
  case (Cons e es)
  then obtain s1 where 1: "hstep render timeout err s e = Some s1"
    and 2: "hrun render timeout err s1 es = Some s'"
    by (auto split: option.splits)
  from assms(3) [OF Cons.prems(2) 1] have "P s1" .
  with Cons.IH 2 show ?case by blast
qed

lemma hstep_Some:
  "hstep render timeout err s e = Some s1 \<Longrightarrow>
     (e = MethodReturns \<and> workpc s = W_call \<and> s1 = s\<lparr>workpc := W_send_called\<rparr>) \<or>
     (e = CalledMeet \<and> workpc s = W_send_called \<and> (mainpc s = M_recv_called \<or> mainpc s = M_select) \<and>
        s1 = s\<lparr>workpc := W_check_err, mainpc := M_recv_sent\<rparr>) \<or>
     (e = ErrCheck \<and> workpc s = W_check_err \<and> err = None \<and> s1 = s\<lparr>workpc := W_exit\<rparr>) \<or>
     (e = ErrCheck \<and> workpc s = W_check_err \<and>
        (\<exists>m. err = Some m \<and>
          s1 = s\<lparr>req_h := (req_h s)\<lparr>h_Error := m\<rparr>,
                  wire := wire s @ [((req_h s)\<lparr>h_Error := m\<rparr>, invalidRequest)],
                  workpc := W_send_sent\<rparr>)) \<or>
     (e = SentMeet \<and> workpc s = W_send_sent \<and> mainpc s = M_recv_sent \<and>
        s1 = s\<lparr>workpc := W_exit, mainpc := M_returned\<rparr>) \<or>
     (e = TimerFires \<and> mainpc s = M_select \<and>
        s1 = s\<lparr>req_h := (req_h s)\<lparr>h_Error := timeout_message render timeout\<rparr>,
                wire := wire s @ [((req_h s)\<lparr>h_Error := timeout_message render timeout\<rparr>, invalidRequest)],
                mainpc := M_returned\<rparr>)"
  by (cases e) (auto simp: sendResponse_def Let_def split: if_splits option.splits)

lemma success_inv_step:
  assumes "success_inv render h0 timeout s" and "hstep render timeout None s ev = Some s1"
  shows "success_inv render h0 timeout s1"
  using assms(1) hstep_Some [OF assms(2)]
  by (cases "mainpc s") (auto simp: success_inv_def)

lemma success_inv_init: "success_inv render h0 timeout (handleRequest_init h0 timeout)"
  by (simp add: success_inv_def handleRequest_init_def)

text \<open>
  Claim C1 asks for one response frame, with the reply, for a request whose method returns
  no error. The code writes none: whatever the schedule of the two goroutines, the wire is
  empty or holds the frame of the timeout branch alone, and with \<open>timeout == 0\<close> the wire
  stays empty and \<open>handleRequest\<close> never returns, since nothing is ever sent on \<open>sent\<close>.
\<close>

theorem handleRequest_success_no_reply:
  assumes "handleRequest render h0 timeout None evs = Some s"
  shows "(timeout = 0 \<longrightarrow> wire s = [] \<and> mainpc s \<noteq> M_returned) \<and>
         (wire s = [] \<or> wire s = [(h0\<lparr>h_Error := timeout_message render timeout\<rparr>, invalidRequest)])"
proof -
  have "success_inv render h0 timeout s"
    using assms success_inv_init success_inv_step
    unfolding handleRequest_def by (rule hrun_invariant)
  then show ?thesis
    by (auto simp: success_inv_def)
qed

text \<open>
  The theorem at the request of \<open>Bar.Timeout\<close> with \<open>timeout == 0\<close>: after the method has
  returned, the two goroutines have met on \<open>called\<close> and the invocation goroutine has found
  \<open>err == nil\<close>, nothing is written, the caller waits at \<open><-sent\<close> and no step is possible.
\<close>

theorem handleRequest_success_no_reply_witness:
  "handleRequest (\<lambda>d. ''0s'') example_header 0 None [MethodReturns, CalledMeet, ErrCheck]
     = Some (\<lparr>mainpc = M_recv_sent, workpc = W_exit, req_h = example_header, wire = ([] :: unit frame list)\<rparr>) \<and>
   hstep (\<lambda>d. ''0s'') 0 None
     (\<lparr>mainpc = M_recv_sent, workpc = W_exit, req_h = example_header, wire = ([] :: unit frame list)\<rparr>) MethodReturns = None \<and>
   hstep (\<lambda>d. ''0s'') 0 None
     (\<lparr>mainpc = M_recv_sent, workpc = W_exit, req_h = example_header, wire = ([] :: unit frame list)\<rparr>) CalledMeet = None \<and>
   hstep (\<lambda>d. ''0s'') 0 None
     (\<lparr>mainpc = M_recv_sent, workpc = W_exit, req_h = example_header, wire = ([] :: unit frame list)\<rparr>) ErrCheck = None \<and>
   hstep (\<lambda>d. ''0s'') 0 None
     (\<lparr>mainpc = M_recv_sent, workpc = W_exit, req_h = example_header, wire = ([] :: unit frame list)\<rparr>) SentMeet = None \<and>
   hstep (\<lambda>d. ''0s'') 0 None
     (\<lparr>mainpc = M_recv_sent, workpc = W_exit, req_h = example_header, wire = ([] :: unit frame list)\<rparr>) TimerFires = None"
  using handleRequest_success_no_reply [of "\<lambda>d. ''0s''" example_header 0 "[MethodReturns, CalledMeet, ErrCheck]"
     "\<lparr>mainpc = M_recv_sent, workpc = W_exit, req_h = example_header, wire = ([] :: unit frame list)\<rparr>"]
  by (simp add: handleRequest_def handleRequest_init_def)

text \<open>
  On every path on which \<open>handleRequest\<close> returns (the method failed, or the timer fired)
  it has written exactly one frame.
\<close>

lemma returned_inv_step:
  assumes "returned_inv s" and "hstep render timeout err s ev = Some s1"
  shows "returned_inv s1"
  using assms(1) hstep_Some [OF assms(2)]
  by (cases "mainpc s") (auto simp: returned_inv_def)

lemma handleRequest_returned_one_frame:
  assumes "handleRequest render h0 timeout err evs = Some s" and "mainpc s = M_returned"
  shows "length (wire s) = 1"
proof -
  have "returned_inv (handleRequest_init h0 timeout :: 'a hstate)"
    by (simp add: returned_inv_def handleRequest_init_def)
  with assms(1) have "returned_inv s"
    unfolding handleRequest_def using returned_inv_step by (rule hrun_invariant)
  with assms(2) show ?thesis by (simp add: returned_inv_def)
qed

lemma hrun_snoc:
  "hrun render timeout err s (evs @ [e]) =
     (case hrun render timeout err s evs of
        None \<Rightarrow> None
      | Some s1 \<Rightarrow> hstep render timeout err s1 e)"
  by (induction evs arbitrary: s) (auto split: option.splits)

lemma timer_inv_step:
  assumes "timer_inv render h0 timeout err evs s" and "hstep render timeout err s e = Some s1"
  shows "timer_inv render h0 timeout err (evs @ [e]) s1"
  using assms(1) hstep_Some [OF assms(2)]
  by (cases "mainpc s"; cases "TimerFires \<in> set evs")
     (auto simp: timer_inv_def timeout_frame_def error_frame_def)

lemma timer_inv_run:
  "hrun render timeout err (handleRequest_init h0 timeout) evs = Some s \<Longrightarrow>
   timer_inv render h0 timeout err evs s"
proof (induction evs arbitrary: s rule: rev_induct)
  case Nil
  then show ?case by (auto simp: timer_inv_def handleRequest_init_def split: if_splits)
next
  case (snoc e evs)
  then obtain s1 where 1: "hrun render timeout err (handleRequest_init h0 timeout) evs = Some s1"
    and 2: "hstep render timeout err s1 e = Some s"
    by (auto simp: hrun_snoc split: option.splits)
  from snoc.IH [OF 1] 2 show ?case by (rule timer_inv_step)
qed

text \<open>
  Claim C5. In a run in which the timer fires, the timeout is not 0, \<open>handleRequest\<close> has
  returned, the one frame on the wire has the request's header with \<open>Error\<close> set to
  \<open>rpc server: request handle timeout: except within \<close> followed by the rendered timeout,
  and the sentinel body, and the invocation has not passed its send on \<open>called\<close>. As long
  as the caller waits in the \<open>select\<close> (the invocation has not signalled \<open>called\<close>) the
  timeout is not 0 and the timer step is possible and writes that frame.

  With a timeout of 0 the timer never fires and the caller is never in the \<open>select\<close>. The
  wire never holds a timeout frame: it is empty, or it holds the one frame with the error the
  method returned. While the caller waits for \<open>called\<close>, nothing is written and the
  invocation has not passed its send on \<open>called\<close>; while it waits for \<open>sent\<close>, the two
  have met on \<open>called\<close> and the invocation is at its test of the error, or at its send on
  \<open>sent\<close> with its frame written, or at its end after a \<open>nil\<close> error; and when the caller
  has returned the two have met on \<open>called\<close> and on \<open>sent\<close>, the invocation is at its
  end, and the wire holds the method's error frame alone. The last part holds of every run
  in which the timer has not fired.
\<close>

theorem handleRequest_timeout_response:
  assumes "handleRequest render h0 timeout err evs = Some s"
  shows "(TimerFires \<in> set evs \<longrightarrow>
            timeout \<noteq> 0 \<and> mainpc s = M_returned \<and>
            wire s = [(h0\<lparr>h_Error := ''rpc server: request handle timeout: except within '' @ render timeout\<rparr>,
                       invalidRequest)] \<and>
            (workpc s = W_call \<or> workpc s = W_send_called)) \<and>
         (mainpc s = M_select \<longrightarrow>
            timeout \<noteq> 0 \<and>
            map_option wire (hstep render timeout err s TimerFires) =
              Some [(h0\<lparr>h_Error := ''rpc server: request handle timeout: except within '' @ render timeout\<rparr>,
                     invalidRequest)]) \<and>
         (timeout = 0 \<longrightarrow>
            TimerFires \<notin> set evs \<and> mainpc s \<noteq> M_select \<and>
            (mainpc s = M_returned \<longrightarrow> CalledMeet \<in> set evs \<and> SentMeet \<in> set evs) \<and>
            (wire s = [] \<or> (\<exists>e. err = Some e \<and> wire s = [(h0\<lparr>h_Error := e\<rparr>, invalidRequest)])) \<and>
            (mainpc s = M_recv_called \<longrightarrow>
               wire s = [] \<and> (workpc s = W_call \<or> workpc s = W_send_called)) \<and>
            (mainpc s = M_recv_sent \<longrightarrow>
               CalledMeet \<in> set evs \<and>
               (workpc s = W_check_err \<and> wire s = [] \<or>
                workpc s = W_send_sent \<and> wire s \<noteq> [] \<or>
                workpc s = W_exit \<and> err = None \<and> wire s = [])) \<and>
            (mainpc s = M_returned \<longrightarrow>
               workpc s = W_exit \<and>
               (\<exists>e. err = Some e \<and> wire s = [(h0\<lparr>h_Error := e\<rparr>, invalidRequest)]))) \<and>
         (TimerFires \<notin> set evs \<longrightarrow>
            (wire s = [] \<or> (\<exists>e. err = Some e \<and> wire s = [(h0\<lparr>h_Error := e\<rparr>, invalidRequest)])) \<and>
            (mainpc s = M_returned \<longrightarrow>
               CalledMeet \<in> set evs \<and> SentMeet \<in> set evs \<and> workpc s = W_exit \<and> wire s \<noteq> []))"
proof -
  have inv: "timer_inv render h0 timeout err evs s"
    using assms unfolding handleRequest_def by (rule timer_inv_run)
  have A: "TimerFires \<in> set evs \<longrightarrow>
            timeout \<noteq> 0 \<and> mainpc s = M_returned \<and>
            wire s = [(h0\<lparr>h_Error := ''rpc server: request handle timeout: except within '' @ render timeout\<rparr>,
                       invalidRequest)] \<and>
            (workpc s = W_call \<or> workpc s = W_send_called)"
    using inv by (simp add: timer_inv_def timeout_frame_def timeout_message_def)
  have B: "mainpc s = M_select \<longrightarrow>
            timeout \<noteq> 0 \<and>
            map_option wire (hstep render timeout err s TimerFires) =
              Some [(h0\<lparr>h_Error := ''rpc server: request handle timeout: except within '' @ render timeout\<rparr>,
                     invalidRequest)]"
  proof
    assume m: "mainpc s = M_select"
    with inv have t: "TimerFires \<notin> set evs" by (auto simp: timer_inv_def)
    from inv m t have "timeout \<noteq> 0" "wire s = []" "req_h s = h0" by (simp_all add: timer_inv_def)
    with m show "timeout \<noteq> 0 \<and>
            map_option wire (hstep render timeout err s TimerFires) =
              Some [(h0\<lparr>h_Error := ''rpc server: request handle timeout: except within '' @ render timeout\<rparr>,
                     invalidRequest)]"
      by (simp add: sendResponse_def timeout_message_def Let_def)
  qed
  have D: "TimerFires \<notin> set evs \<Longrightarrow>
            (mainpc s = M_select \<longrightarrow> timeout \<noteq> 0) \<and>
            (mainpc s = M_returned \<longrightarrow> CalledMeet \<in> set evs \<and> SentMeet \<in> set evs) \<and>
            (wire s = [] \<or> (\<exists>e. err = Some e \<and> wire s = [(h0\<lparr>h_Error := e\<rparr>, invalidRequest)])) \<and>
            (mainpc s = M_recv_called \<longrightarrow>
               wire s = [] \<and> (workpc s = W_call \<or> workpc s = W_send_called)) \<and>
            (mainpc s = M_recv_sent \<longrightarrow>
               CalledMeet \<in> set evs \<and>
               (workpc s = W_check_err \<and> wire s = [] \<or>
                workpc s = W_send_sent \<and> wire s \<noteq> [] \<or>
                workpc s = W_exit \<and> err = None \<and> wire s = [])) \<and>
            (mainpc s = M_returned \<longrightarrow>
               workpc s = W_exit \<and>
               (\<exists>e. err = Some e \<and> wire s = [(h0\<lparr>h_Error := e\<rparr>, invalidRequest)]))"
    using inv by (cases "mainpc s") (auto simp: timer_inv_def error_frame_def)
  have T: "timeout = 0 \<Longrightarrow> TimerFires \<notin> set evs"
    using inv by (auto simp: timer_inv_def)
  show ?thesis
  proof (intro conjI)
    show "TimerFires \<in> set evs \<longrightarrow>
            timeout \<noteq> 0 \<and> mainpc s = M_returned \<and>
            wire s = [(h0\<lparr>h_Error := ''rpc server: request handle timeout: except within '' @ render timeout\<rparr>,
                       invalidRequest)] \<and>
            (workpc s = W_call \<or> workpc s = W_send_called)" by (rule A)
  next
    show "mainpc s = M_select \<longrightarrow>
            timeout \<noteq> 0 \<and>
            map_option wire (hstep render timeout err s TimerFires) =
              Some [(h0\<lparr>h_Error := ''rpc server: request handle timeout: except within '' @ render timeout\<rparr>,
                     invalidRequest)]" by (rule B)
  next
    show "timeout = 0 \<longrightarrow>
            TimerFires \<notin> set evs \<and> mainpc s \<noteq> M_select \<and>
            (mainpc s = M_returned \<longrightarrow> CalledMeet \<in> set evs \<and> SentMeet \<in> set evs) \<and>
            (wire s = [] \<or> (\<exists>e. err = Some e \<and> wire s = [(h0\<lparr>h_Error := e\<rparr>, invalidRequest)])) \<and>
            (mainpc s = M_recv_called \<longrightarrow>
               wire s = [] \<and> (workpc s = W_call \<or> workpc s = W_send_called)) \<and>
            (mainpc s = M_recv_sent \<longrightarrow>
               CalledMeet \<in> set evs \<and>
               (workpc s = W_check_err \<and> wire s = [] \<or>
                workpc s = W_send_sent \<and> wire s \<noteq> [] \<or>
                workpc s = W_exit \<and> err = None \<and> wire s = [])) \<and>
            (mainpc s = M_returned \<longrightarrow>
               workpc s = W_exit \<and>
               (\<exists>e. err = Some e \<and> wire s = [(h0\<lparr>h_Error := e\<rparr>, invalidRequest)]))"
    proof
      assume z: "timeout = 0"
      from D [OF T [OF z]] z T [OF z]
      show "TimerFires \<notin> set evs \<and> mainpc s \<noteq> M_select \<and>
            (mainpc s = M_returned \<longrightarrow> CalledMeet \<in> set evs \<and> SentMeet \<in> set evs) \<and>
            (wire s = [] \<or> (\<exists>e. err = Some e \<and> wire s = [(h0\<lparr>h_Error := e\<rparr>, invalidRequest)])) \<and>
            (mainpc s = M_recv_called \<longrightarrow>
               wire s = [] \<and> (workpc s = W_call \<or> workpc s = W_send_called)) \<and>
            (mainpc s = M_recv_sent \<longrightarrow>
               CalledMeet \<in> set evs \<and>
               (workpc s = W_check_err \<and> wire s = [] \<or>
                workpc s = W_send_sent \<and> wire s \<noteq> [] \<or>
                workpc s = W_exit \<and> err = None \<and> wire s = [])) \<and>
            (mainpc s = M_returned \<longrightarrow>
               workpc s = W_exit \<and>
               (\<exists>e. err = Some e \<and> wire s = [(h0\<lparr>h_Error := e\<rparr>, invalidRequest)]))"
        by blast
    qed
  next
    show "TimerFires \<notin> set evs \<longrightarrow>
            (wire s = [] \<or> (\<exists>e. err = Some e \<and> wire s = [(h0\<lparr>h_Error := e\<rparr>, invalidRequest)])) \<and>
            (mainpc s = M_returned \<longrightarrow>
               CalledMeet \<in> set evs \<and> SentMeet \<in> set evs \<and> workpc s = W_exit \<and> wire s \<noteq> [])"
      using D by auto
  qed
qed

text \<open>
  The theorem at a run with a timeout of one second in which the timer fires while the
  invocation waits to signal \<open>called\<close>; at the state before the timer fires, where the
  caller is in the \<open>select\<close>; and at runs with timeout 0 of a method that fails: at the
  start, where the caller waits for \<open>called\<close>, after the rendezvous on \<open>called\<close>, where
  it waits for \<open>sent\<close>, and after both, where it has returned.
\<close>

theorem handleRequest_timeout_response_witness:
  "handleRequest (\<lambda>d. ''1s'') example_header 1000000000 None [MethodReturns, TimerFires]
     = Some (\<lparr>mainpc = M_returned, workpc = W_send_called,
        req_h = example_header\<lparr>h_Error := ''rpc server: request handle timeout: except within 1s''\<rparr>,
        wire = [(example_header\<lparr>h_Error := ''rpc server: request handle timeout: except within 1s''\<rparr>,
                 invalidRequest :: unit body)]\<rparr>) \<and>
   handleRequest (\<lambda>d. ''1s'') example_header 1000000000 None [MethodReturns]
     = Some (\<lparr>mainpc = M_select, workpc = W_send_called, req_h = example_header,
        wire = ([] :: unit frame list)\<rparr>) \<and>
   map_option wire (hstep (\<lambda>d. ''1s'') 1000000000 None
       (\<lparr>mainpc = M_select, workpc = W_send_called, req_h = example_header,
        wire = ([] :: unit frame list)\<rparr>) TimerFires)
     = Some [(example_header\<lparr>h_Error := ''rpc server: request handle timeout: except within 1s''\<rparr>,
              invalidRequest)] \<and>
   handleRequest (\<lambda>d. ''0s'') example_header 0 (Some ''boom'') []
     = Some (\<lparr>mainpc = M_recv_called, workpc = W_call, req_h = example_header,
        wire = ([] :: unit frame list)\<rparr>) \<and>
   handleRequest (\<lambda>d. ''0s'') example_header 0 (Some ''boom'') [MethodReturns, CalledMeet]
     = Some (\<lparr>mainpc = M_recv_sent, workpc = W_check_err, req_h = example_header,
        wire = ([] :: unit frame list)\<rparr>) \<and>
   handleRequest (\<lambda>d. ''0s'') example_header 0 (Some ''boom'') [MethodReturns, CalledMeet, ErrCheck, SentMeet]
     = Some (\<lparr>mainpc = M_returned, workpc = W_exit, req_h = example_header\<lparr>h_Error := ''boom''\<rparr>,
        wire = [(example_header\<lparr>h_Error := ''boom''\<rparr>, invalidRequest :: unit body)]\<rparr>) \<and>
   (handleRequest (\<lambda>d. ''0s'') example_header 0 (Some ''boom'') [TimerFires] :: unit hstate option) = None"
  using handleRequest_timeout_response [of "\<lambda>d. ''1s''" example_header 1000000000 None "[MethodReturns, TimerFires]"
      "\<lparr>mainpc = M_returned, workpc = W_send_called,
        req_h = example_header\<lparr>h_Error := ''rpc server: request handle timeout: except within 1s''\<rparr>,
        wire = [(example_header\<lparr>h_Error := ''rpc server: request handle timeout: except within 1s''\<rparr>,
                 invalidRequest :: unit body)]\<rparr>"]
    handleRequest_timeout_response [of "\<lambda>d. ''1s''" example_header 1000000000 None "[MethodReturns]"
      "\<lparr>mainpc = M_select, workpc = W_send_called, req_h = example_header,
        wire = ([] :: unit frame list)\<rparr>"]
    handleRequest_timeout_response [of "\<lambda>d. ''0s''" example_header 0 "Some ''boom''" "[]"
      "\<lparr>mainpc = M_recv_called, workpc = W_call, req_h = example_header,
        wire = ([] :: unit frame list)\<rparr>"]
    handleRequest_timeout_response [of "\<lambda>d. ''0s''" example_header 0 "Some ''boom''" "[MethodReturns, CalledMeet]"
      "\<lparr>mainpc = M_recv_sent, workpc = W_check_err, req_h = example_header,
        wire = ([] :: unit frame list)\<rparr>"]
    handleRequest_timeout_response [of "\<lambda>d. ''0s''" example_header 0 "Some ''boom''" "[MethodReturns, CalledMeet, ErrCheck, SentMeet]"
      "\<lparr>mainpc = M_returned, workpc = W_exit, req_h = example_header\<lparr>h_Error := ''boom''\<rparr>,
        wire = [(example_header\<lparr>h_Error := ''boom''\<rparr>, invalidRequest :: unit body)]\<rparr>"]
  by (simp add: handleRequest_def handleRequest_init_def sendResponse_def timeout_message_def Let_def)

section \<open>Static discovery\<close>

lemma int_rem_nonneg: "0 \<le> a \<Longrightarrow> 0 < b \<Longrightarrow> int_rem a b = a mod b"
  by (simp add: int_rem_def smod_int_alt_def sgn_if)

lemma int_add_small: "0 \<le> a \<Longrightarrow> a < 2 ^ 63 - 1 \<Longrightarrow> int_add a 1 = a + 1"
  by (simp add: int_add_def wrap_int_def)

lemma slice_index_contents:
  "slice_ok h s \<Longrightarrow> 0 \<le> i \<Longrightarrow> i < int (s_len s) \<Longrightarrow>
   slice_index h s i = Some (contents h s ! nat i)"
  by (simp add: slice_index_def contents_def slice_ok_def)

lemma length_contents: "slice_ok h s \<Longrightarrow> length (contents h s) = s_len s"
  by (auto simp: contents_def slice_ok_def)

lemma NewMultiServerDiscovery_ok:
  "slice_ok h srv \<Longrightarrow> discovery_ok h (NewMultiServerDiscovery g srv)"
  by (simp add: discovery_ok_def NewMultiServerDiscovery_def Intn_def MaxInt32_def Let_def
        nat_mod_distrib zmod_int)

lemma Update_ok: "discovery_ok h d \<Longrightarrow> slice_ok h srv \<Longrightarrow> discovery_ok h (snd (Update d srv))"
  by (simp add: discovery_ok_def Update_def)

lemma Get_ok:
  assumes "discovery_ok h d" and "Get h d mode = Some (res, d1)"
  shows "discovery_ok h d1"
proof -
  let ?n = "int (s_len (servers d))"
  from assms(1) have ok: "slice_ok h (servers d)" and i0: "0 \<le> index d" and i1: "index d < 2 ^ 63 - 1"
    by (simp_all add: discovery_ok_def)
  have len: "?n < 2 ^ 63" using ok by (simp add: slice_ok_def)
  show ?thesis
  proof (cases "s_len (servers d) = 0")
    case True
    with assms show ?thesis by (simp add: Get_def Let_def)
  next
    case False
    then have n': "0 < ?n" by simp
    have a: "int_add (index d) 1 = index d + 1" using i0 i1 by (rule int_add_small)
    have r1: "int_rem (index d + 1) ?n = (index d + 1) mod ?n"
      using i0 n' by (simp add: int_rem_nonneg)
    have "0 \<le> (index d + 1) mod ?n" "(index d + 1) mod ?n < ?n" using n' by simp_all
    with len have "0 \<le> (index d + 1) mod ?n \<and> (index d + 1) mod ?n < 2 ^ 63 - 1" by linarith
    with assms False ok i0 i1 show ?thesis
      by (auto simp: Get_def Let_def a r1 discovery_ok_def case_prod_beta
               split: if_splits option.splits)
  qed
qed

text \<open>
  Claim C9. For a discovery with \<open>n >= 1\<close> servers, \<open>Get(RoundRobinSelect)\<close> returns
  \<open>servers[index mod n]\<close> and sets \<open>index\<close> to \<open>(index + 1) mod n\<close>, and
  \<open>Get(RandomSelect)\<close> returns an element of the server list and changes only the random
  generator. With no server \<open>Get\<close> returns the error \<open>rpc discovery: no available servers\<close>
  for every mode, and with servers and a mode that is neither of the two it returns the error
  \<open>rpc discovery: not supported select mode\<close>; in both cases the discovery is unchanged.
\<close>

theorem Get_result:
  assumes "discovery_ok h d"
  shows "(0 < s_len (servers d) \<longrightarrow>
            Get h d RoundRobinSelect =
              Some (Inr (contents h (servers d) ! nat (index d mod int (s_len (servers d)))),
                    d\<lparr>index := (index d + 1) mod int (s_len (servers d))\<rparr>)) \<and>
         (0 < s_len (servers d) \<longrightarrow>
            (\<exists>s g. Get h d RandomSelect = Some (Inr s, d\<lparr>rnd := g\<rparr>) \<and>
                   s \<in> set (contents h (servers d)))) \<and>
         (s_len (servers d) = 0 \<longrightarrow>
            Get h d mode = Some (Inl (Err ''rpc discovery: no available servers''), d)) \<and>
         (0 < s_len (servers d) \<and> mode \<noteq> RandomSelect \<and> mode \<noteq> RoundRobinSelect \<longrightarrow>
            Get h d mode = Some (Inl (Err ''rpc discovery: not supported select mode''), d))"
proof (intro conjI impI)
  let ?n = "int (s_len (servers d))"
  from assms have ok: "slice_ok h (servers d)" and i0: "0 \<le> index d" and i1: "index d < 2 ^ 63 - 1"
    by (simp_all add: discovery_ok_def)
  {
    assume n: "0 < s_len (servers d)"
    then have n': "0 < ?n" by simp
    have r: "int_rem (index d) ?n = index d mod ?n" using i0 n' by (rule int_rem_nonneg)
    have a: "int_add (index d) 1 = index d + 1" using i0 i1 by (rule int_add_small)
    have r1: "int_rem (index d + 1) ?n = (index d + 1) mod ?n"
      using i0 n' by (simp add: int_rem_nonneg)
    have "0 \<le> index d mod ?n" "index d mod ?n < ?n" using n' by simp_all
    then have "slice_index h (servers d) (index d mod ?n)
                 = Some (contents h (servers d) ! nat (index d mod ?n))"
      using ok by (simp add: slice_index_contents)
    then show "Get h d RoundRobinSelect =
              Some (Inr (contents h (servers d) ! nat (index d mod ?n)),
                    d\<lparr>index := (index d + 1) mod ?n\<rparr>)"
      using n by (simp add: Get_def r a r1 RoundRobinSelect_def RandomSelect_def Let_def)
  next
    assume n: "0 < s_len (servers d)"
    then have n': "0 < ?n" by simp
    let ?i = "fst (Intn (rnd d) ?n)"
    have b: "0 \<le> ?i" "?i < ?n" using n by (simp_all add: Intn_def)
    then have si: "slice_index h (servers d) ?i = Some (contents h (servers d) ! nat ?i)"
      using ok by (simp add: slice_index_contents)
    have "nat ?i < length (contents h (servers d))"
      using b ok by (simp add: length_contents)
    then have "contents h (servers d) ! nat ?i \<in> set (contents h (servers d))" by (rule nth_mem)
    moreover have "Get h d RandomSelect =
        Some (Inr (contents h (servers d) ! nat ?i), d\<lparr>rnd := snd (Intn (rnd d) ?n)\<rparr>)"
      using n si by (simp add: Get_def RandomSelect_def Let_def case_prod_beta)
    ultimately show "\<exists>s g. Get h d RandomSelect = Some (Inr s, d\<lparr>rnd := g\<rparr>) \<and>
                   s \<in> set (contents h (servers d))" by blast
  next
    assume "s_len (servers d) = 0"
    then show "Get h d mode = Some (Inl (Err ''rpc discovery: no available servers''), d)"
      by (simp add: Get_def Let_def)
  next
    assume "0 < s_len (servers d) \<and> mode \<noteq> RandomSelect \<and> mode \<noteq> RoundRobinSelect"
    then show "Get h d mode = Some (Inl (Err ''rpc discovery: not supported select mode''), d)"
      by (simp add: Get_def Let_def)
  }
qed

lemma example_discovery_eq:
  "example_discovery = \<lparr>rnd = \<lparr>draws = (\<lambda>k. 7), taken = 1\<rparr>, servers = example_servers, index = 7\<rparr>"
  by (simp add: example_discovery_def NewMultiServerDiscovery_def Intn_def MaxInt32_def Let_def)

text \<open>
  The theorem at the example: \<open>index\<close> is 7, so round robin returns the server at
  \<open>7 mod 3 = 1\<close> and leaves \<open>index = 8 mod 3 = 2\<close>; mode 5 is not supported; and with the
  list cut to length 0 there is no server.
\<close>

theorem Get_result_witness:
  "discovery_ok example_heap example_discovery \<and>
   index example_discovery = 7 \<and>
   0 < s_len (servers example_discovery) \<and>
   Get example_heap example_discovery RoundRobinSelect =
     Some (Inr ''s2'', example_discovery\<lparr>index := 2\<rparr>) \<and>
   Get example_heap example_discovery RandomSelect =
     Some (Inr ''s2'', example_discovery\<lparr>rnd := \<lparr>draws = (\<lambda>k. 7), taken = 2\<rparr>\<rparr>) \<and>
   5 \<noteq> RandomSelect \<and> 5 \<noteq> RoundRobinSelect \<and>
   Get example_heap example_discovery 5 =
     Some (Inl (Err ''rpc discovery: not supported select mode''), example_discovery) \<and>
   s_len (servers (example_discovery\<lparr>servers := example_servers\<lparr>s_len := 0\<rparr>\<rparr>)) = 0 \<and>
   discovery_ok example_heap (example_discovery\<lparr>servers := example_servers\<lparr>s_len := 0\<rparr>\<rparr>) \<and>
   Get example_heap (example_discovery\<lparr>servers := example_servers\<lparr>s_len := 0\<rparr>\<rparr>) RoundRobinSelect =
     Some (Inl (Err ''rpc discovery: no available servers''),
           example_discovery\<lparr>servers := example_servers\<lparr>s_len := 0\<rparr>\<rparr>)"
proof -
  have ok: "discovery_ok example_heap example_discovery"
    by (simp add: example_discovery_eq discovery_ok_def slice_ok_def example_servers_def
          example_heap_def)
  have ok0: "discovery_ok example_heap (example_discovery\<lparr>servers := example_servers\<lparr>s_len := 0\<rparr>\<rparr>)"
    by (simp add: example_discovery_eq discovery_ok_def slice_ok_def example_servers_def
          example_heap_def)
  show ?thesis
    using ok ok0 Get_result [OF ok, of 5]
      Get_result [OF ok0, of RoundRobinSelect]
    by (simp add: example_discovery_eq example_servers_def example_heap_def contents_def
          RandomSelect_def RoundRobinSelect_def Get_def Intn_def slice_index_def Let_def)
qed

lemma heap_append_nth: "a < length h \<Longrightarrow> (h @ t) ! a = h ! a"
  by (simp add: nth_append)

lemma contents_append: "s_arr s < length h \<Longrightarrow> contents (h @ t) s = contents h s"
  by (simp add: contents_def nth_append)

lemma slice_index_append: "s_arr s < length h \<Longrightarrow> slice_index (h @ t) s i = slice_index h s i"
  by (simp add: slice_index_def nth_append)

lemma slice_ok_append: "slice_ok h s \<Longrightarrow> slice_ok (h @ t) s"
  by (simp add: slice_ok_def nth_append)

lemma Get_append: "s_arr (servers d) < length h \<Longrightarrow> Get (h @ t) d mode = Get h d mode"
  by (simp add: Get_def slice_index_append Let_def)

lemma GetAll_eq:
  assumes "slice_ok h (servers d)"
  shows "GetAll h d =
     ((\<lparr>s_arr = length h, s_off = 0, s_len = s_len (servers d), s_cap = s_len (servers d)\<rparr>, None),
      h @ [contents h (servers d)], d)"
proof -
  let ?n = "s_len (servers d)"
  let ?h1 = "h @ [replicate ?n []]"
  let ?srv = "\<lparr>s_arr = length h, s_off = 0, s_len = ?n, s_cap = ?n\<rparr>"
  have a: "s_arr (servers d) < length h" using assms by (simp add: slice_ok_def)
  have c: "contents ?h1 (servers d) = contents h (servers d)" using a by (rule contents_append)
  have l: "length (contents h (servers d)) = ?n" using assms by (rule length_contents)
  have "copy_slice ?h1 ?srv (servers d) = h @ [contents h (servers d)]"
    using l by (simp add: copy_slice_def c Let_def)
  then show ?thesis by (simp add: GetAll_def make_slice_def)
qed

text \<open>
  Claim C10. \<open>GetAll\<close> returns no error and leaves the discovery as it is. The slice it
  returns is on a new array (its address is the first one the heap did not have), its
  elements are the server list, and the server list reads the same in the new heap. After
  any assignment to an element of the returned slice the discovery's server list still reads
  the same, \<open>Get\<close> returns what it would have returned before \<open>GetAll\<close>, and another
  \<open>GetAll\<close> returns the same elements.
\<close>

theorem GetAll_fresh_copy:
  assumes "slice_ok h (servers d)"
  shows "(GetAll h d = ((srv, e), h1, d1) \<longrightarrow>
            e = None \<and> d1 = d \<and> s_arr srv = length h \<and>
            contents h1 srv = contents h (servers d) \<and>
            contents h1 (servers d) = contents h (servers d) \<and>
            (\<forall>i v h2. slice_assign h1 srv i v = Some h2 \<longrightarrow>
               contents h2 (servers d) = contents h (servers d) \<and>
               Get h2 d mode = Get h d mode \<and>
               contents (fst (snd (GetAll h2 d))) (fst (fst (GetAll h2 d))) = contents h (servers d)))"
proof (intro impI)
  assume g: "GetAll h d = ((srv, e), h1, d1)"
  have a: "s_arr (servers d) < length h" using assms by (simp add: slice_ok_def)
  from g GetAll_eq [OF assms]
  have srv: "srv = \<lparr>s_arr = length h, s_off = 0, s_len = s_len (servers d), s_cap = s_len (servers d)\<rparr>"
    and e: "e = None" and h1: "h1 = h @ [contents h (servers d)]" and d1: "d1 = d"
    by auto
  have l: "length (contents h (servers d)) = s_len (servers d)" using assms by (rule length_contents)
  have c1: "contents h1 srv = contents h (servers d)"
    using l by (simp add: srv h1 contents_def)
  have c2: "contents h1 (servers d) = contents h (servers d)"
    unfolding h1 using a by (rule contents_append)
  have m: "\<forall>i v h2. slice_assign h1 srv i v = Some h2 \<longrightarrow>
               contents h2 (servers d) = contents h (servers d) \<and>
               Get h2 d mode = Get h d mode \<and>
               contents (fst (snd (GetAll h2 d))) (fst (fst (GetAll h2 d))) = contents h (servers d)"
  proof (intro allI impI)
    fix i v h2
    assume "slice_assign h1 srv i v = Some h2"
    then have h2: "h2 = h @ [(contents h (servers d))[nat i := v]]"
      by (simp add: slice_assign_def srv h1 split: if_splits)
    have k1: "contents h2 (servers d) = contents h (servers d)"
      unfolding h2 using a by (rule contents_append)
    have k2: "Get h2 d mode = Get h d mode" unfolding h2 using a by (rule Get_append)
    have "slice_ok h2 (servers d)" unfolding h2 using assms by (rule slice_ok_append)
    from GetAll_eq [OF this]
    have "contents (fst (snd (GetAll h2 d))) (fst (fst (GetAll h2 d))) = contents h2 (servers d)"
      using l k1 by (simp add: contents_def)
    with k1 k2 show "contents h2 (servers d) = contents h (servers d) \<and>
               Get h2 d mode = Get h d mode \<and>
               contents (fst (snd (GetAll h2 d))) (fst (fst (GetAll h2 d))) = contents h (servers d)"
      by simp
  qed
  from e d1 srv c1 c2 m
  show "e = None \<and> d1 = d \<and> s_arr srv = length h \<and>
            contents h1 srv = contents h (servers d) \<and>
            contents h1 (servers d) = contents h (servers d) \<and>
            (\<forall>i v h2. slice_assign h1 srv i v = Some h2 \<longrightarrow>
               contents h2 (servers d) = contents h (servers d) \<and>
               Get h2 d mode = Get h d mode \<and>
               contents (fst (snd (GetAll h2 d))) (fst (fst (GetAll h2 d))) = contents h (servers d))"
    by simp
qed

lemma example_servers_ok: "slice_ok example_heap (servers example_discovery)"
  by (simp add: example_discovery_eq slice_ok_def example_servers_def example_heap_def)

text \<open>
  The theorem at the example: the copy is the array at address 1, and writing its first
  element leaves the discovery's list \<open>s1, s2, s3\<close>.
\<close>

theorem GetAll_fresh_copy_witness:
  "slice_ok example_heap (servers example_discovery) \<and>
   GetAll example_heap example_discovery =
     ((\<lparr>s_arr = 1, s_off = 0, s_len = 3, s_cap = 3\<rparr>, None),
      [[''s1'', ''s2'', ''s3''], [''s1'', ''s2'', ''s3'']], example_discovery) \<and>
   slice_assign [[''s1'', ''s2'', ''s3''], [''s1'', ''s2'', ''s3'']]
      \<lparr>s_arr = 1, s_off = 0, s_len = 3, s_cap = 3\<rparr> 0 ''changed''
     = Some [[''s1'', ''s2'', ''s3''], [''changed'', ''s2'', ''s3'']] \<and>
   contents [[''s1'', ''s2'', ''s3''], [''changed'', ''s2'', ''s3'']] (servers example_discovery)
     = [''s1'', ''s2'', ''s3'']"
proof -
  have g: "GetAll example_heap example_discovery =
     ((\<lparr>s_arr = 1, s_off = 0, s_len = 3, s_cap = 3\<rparr>, None),
      [[''s1'', ''s2'', ''s3''], [''s1'', ''s2'', ''s3'']], example_discovery)"
    by (simp add: GetAll_def make_slice_def copy_slice_def contents_def Let_def
          example_discovery_eq example_servers_def example_heap_def)
  have a: "slice_assign [[''s1'', ''s2'', ''s3''], [''s1'', ''s2'', ''s3'']]
      \<lparr>s_arr = 1, s_off = 0, s_len = 3, s_cap = 3\<rparr> 0 ''changed''
     = Some [[''s1'', ''s2'', ''s3''], [''changed'', ''s2'', ''s3'']]"
    by (simp add: slice_assign_def)
  from GetAll_fresh_copy [OF example_servers_ok, of _ _ _ _ RoundRobinSelect] g a
  have "contents [[''s1'', ''s2'', ''s3''], [''changed'', ''s2'', ''s3'']] (servers example_discovery)
     = contents example_heap (servers example_discovery)"
    by blast
  then show ?thesis using example_servers_ok g a
    by (simp add: contents_def example_discovery_eq example_servers_def example_heap_def)
qed

end
